theory Spec2Isabelle
  imports Complex_Main "HOL-Library.AList"
begin

section \<open>Strings\<close>

text \<open>
  A JavaScript string is modelled as a list of code units; a \<^typ>\<open>char\<close> stands for the
  code unit of the same number, so the model covers the strings over U+0000 .. U+00FF.
  \<open>trim\<close>, \<open>toLowerCase\<close>, \<open>split(' ')\<close> and \<open>join\<close> are the String and Array methods
  that \<open>processCommand\<close> and the lookups by name call.
\<close>

definition isWhiteSpace :: "char \<Rightarrow> bool" where
  "isWhiteSpace c = (of_char c \<in> {9, 10, 11, 12, 13, 32, 160 :: nat})"

definition trim :: "string \<Rightarrow> string" where
  "trim s = rev (dropWhile isWhiteSpace (rev (dropWhile isWhiteSpace s)))"

definition toLowerChar :: "char \<Rightarrow> char" where
  "toLowerChar c =
     (let n = of_char c :: nat
      in if (65 \<le> n \<and> n \<le> 90) \<or> (192 \<le> n \<and> n \<le> 222 \<and> n \<noteq> 215)
         then char_of (n + 32) else c)"

definition toLowerCase :: "string \<Rightarrow> string" where
  "toLowerCase s = map toLowerChar s"

text \<open>\<open>s.split(' ')\<close>: the pieces between single spaces; never the empty array.\<close>

fun js_split :: "string \<Rightarrow> string list" where
  "js_split [] = [[]]"
| "js_split (c # cs) =
     (if c = CHR '' '' then [] # js_split cs
      else (case js_split cs of [] \<Rightarrow> [[c]] | p # ps \<Rightarrow> (c # p) # ps))"

text \<open>\<open>xs.join(sep)\<close>.\<close>

fun js_join :: "string \<Rightarrow> string list \<Rightarrow> string" where
  "js_join sep [] = []"
| "js_join sep [p] = p"
| "js_join sep (p # q # ps) = p @ sep @ js_join sep (q # ps)"

text \<open>Template literals print a number in decimal.\<close>

fun string_of_nat :: "nat \<Rightarrow> string" where
  "string_of_nat n =
     (if n < 10 then [char_of (48 + n)]
      else string_of_nat (n div 10) @ [char_of (48 + n mod 10)])"

declare string_of_nat.simps [simp del]

definition string_of_int :: "int \<Rightarrow> string" where
  "string_of_int i = (if i < 0 then CHR ''-'' # string_of_nat (nat (- i)) else string_of_nat (nat i))"

definition nl :: string where
  "nl = [CHR 0x0A]"

definition apos :: string where
  "apos = [CHR 0x27]"

section \<open>Entities\<close>

text \<open>
  The \<open>use\<close> method of an item is either the one of the class or one of the five
  functions that \<open>createItems\<close> binds; the tag names the bound function.
\<close>

datatype use_fn = DefaultUse | MedkitUse | EnergyBarUse | FlashlightUse | BatteryUse | BeaconUse

record item =
  i_id :: string
  i_name :: string
  i_description :: string
  i_isUsable :: bool
  i_isEquippable :: bool
  i_use :: use_fn

definition Item :: "string \<Rightarrow> string \<Rightarrow> string \<Rightarrow> bool \<Rightarrow> bool \<Rightarrow> item" where
  "Item iid name description isUsable isEquippable =
     \<lparr>i_id = iid, i_name = name, i_description = description, i_isUsable = isUsable,
      i_isEquippable = isEquippable, i_use = DefaultUse\<rparr>"

record creature =
  c_id :: string
  c_name :: string
  c_description :: string
  c_health :: int
  c_maxHealth :: int
  c_damage :: int
  c_isHostile :: bool
  c_isAlive :: bool

definition Creature :: "string \<Rightarrow> string \<Rightarrow> string \<Rightarrow> int \<Rightarrow> int \<Rightarrow> bool \<Rightarrow> creature" where
  "Creature cid name description health damage isHostile =
     \<lparr>c_id = cid, c_name = name, c_description = description, c_health = health,
      c_maxHealth = health, c_damage = damage, c_isHostile = isHostile, c_isAlive = True\<rparr>"

text \<open>
  \<open>exits\<close> is an object literal: its own keys in insertion order, each with a room id.
  \<open>items\<close> and \<open>creatures\<close> are arrays. Items are never mutated, and a creature object is
  held by one room only once it is placed (the registries \<open>this.items\<close> and
  \<open>this.creatures\<close> are read by \<open>placeItemsAndCreatures\<close> alone), so the arrays hold the
  objects themselves.
\<close>

record room =
  r_id :: string
  r_name :: string
  r_description :: string
  r_image :: string
  r_items :: "item list"
  r_creatures :: "creature list"
  r_exits :: "(string \<times> string) list"
  r_isVisited :: bool

definition Room :: "string \<Rightarrow> string \<Rightarrow> string \<Rightarrow> string \<Rightarrow> room" where
  "Room rid name description img =
     \<lparr>r_id = rid, r_name = name, r_description = description, r_image = img,
      r_items = [], r_creatures = [], r_exits = [], r_isVisited = False\<rparr>"

text \<open>
  What \<open>player.currentLocation\<close> can hold. \<open>Player.move\<close> stores whatever
  \<open>currentRoom.exits[direction]\<close> yields: the room id of an own key, or, for a key that
  \<open>exits\<close> only inherits from \<open>Object.prototype\<close>, the inherited object.
\<close>

datatype location = RoomId string | Inherited string

record player =
  p_health :: int
  p_maxHealth :: int
  p_inventory :: "item list"
  p_currentLocation :: location
  p_isAlive :: bool

definition Player :: "string \<Rightarrow> player" where
  "Player startingRoom =
     \<lparr>p_health = 100, p_maxHealth = 100, p_inventory = [],
      p_currentLocation = RoomId startingRoom, p_isAlive = True\<rparr>"

text \<open>
  The engine: the room registry (an object keyed by room id, kept as an association
  list), the player and the two flags. The DOM handles of the engine and everything that
  only writes to them (\<open>displayMessage\<close>, \<open>updateStatusDisplays\<close>, \<open>updateCompass\<close>,
  \<open>updateContextButtons\<close>) belong to the presentation layer and are left out.
\<close>

record game =
  rooms :: "(string \<times> room) list"
  player :: player
  isGameOver :: bool
  isWin :: bool

section \<open>Creature\<close>

text \<open>\<open>Math.floor(Math.random() * n)\<close>, for the value \<open>r\<close> that \<open>Math.random()\<close> returned.\<close>

definition random_below :: "real \<Rightarrow> int \<Rightarrow> int" where
  "random_below r n = \<lfloor>r * of_int n\<rfloor>"

definition Player_takeDamage :: "int \<Rightarrow> player \<Rightarrow> player" where
  "Player_takeDamage amount p =
     (let p1 = p\<lparr>p_health := p_health p - amount\<rparr>
      in if p_health p1 \<le> 0 then p1\<lparr>p_health := 0, p_isAlive := False\<rparr> else p1)"

text \<open>\<open>Creature.attack\<close>: no value (\<open>undefined\<close>) for a dead or peaceful creature.\<close>

definition Creature_attack :: "real \<Rightarrow> creature \<Rightarrow> player \<Rightarrow> string option \<times> player" where
  "Creature_attack r c p =
     (if \<not> c_isAlive c \<or> \<not> c_isHostile c then (None, p)
      else
        let damageDealt = random_below r (c_damage c) + 1
        in (Some (c_name c @ '' attacks you for '' @ string_of_int damageDealt @ '' damage!''),
            Player_takeDamage damageDealt p))"

text \<open>\<open>Creature.takeDamage\<close>: whether the creature died, and the creature afterwards.\<close>

definition Creature_takeDamage :: "int \<Rightarrow> creature \<Rightarrow> bool \<times> creature" where
  "Creature_takeDamage amount c =
     (let c1 = c\<lparr>c_health := c_health c - amount\<rparr>
      in if c_health c1 \<le> 0 then (True, c1\<lparr>c_health := 0, c_isAlive := False\<rparr>)
         else (False, c1))"

section \<open>Room\<close>

definition Room_getDescription :: "room \<Rightarrow> string" where
  \<open>Room_getDescription rm =
     (let desc0 = ''<span class="location-name">'' @ r_name rm @ ''</span>'' @ nl @ nl
                  @ r_description rm;
          desc1 = (if length (r_items rm) > 0
                   then desc0 @ nl @ nl @ ''You see: ''
                        @ js_join '', ''
                            (map (\<lambda>i. ''<span class="item-name">'' @ i_name i @ ''</span>'')
                               (r_items rm))
                   else desc0);
          desc2 = (if length (r_creatures rm) > 0
                   then desc1 @ nl @ nl @ ''Creatures: ''
                        @ js_join '', ''
                            (map (\<lambda>c. ''<span class="creature-name">'' @ c_name c @ ''</span>'')
                               (r_creatures rm))
                   else desc1);
          exitDirections = map fst (r_exits rm)
      in if length exitDirections > 0
         then desc2 @ nl @ nl @ ''Exits: '' @ js_join '', '' exitDirections
         else desc2 @ nl @ nl @ ''There are no obvious exits.'')\<close>

definition Room_addItem :: "item \<Rightarrow> room \<Rightarrow> room" where
  "Room_addItem i rm = rm\<lparr>r_items := r_items rm @ [i]\<rparr>"

definition Room_addCreature :: "creature \<Rightarrow> room \<Rightarrow> room" where
  "Room_addCreature c rm = rm\<lparr>r_creatures := r_creatures rm @ [c]\<rparr>"

text \<open>\<open>xs.splice(index, 1)\<close> at the index \<open>findIndex\<close> found: the first match goes.\<close>

fun remove_first :: "('a \<Rightarrow> bool) \<Rightarrow> 'a list \<Rightarrow> 'a list" where
  "remove_first P [] = []"
| "remove_first P (x # xs) = (if P x then xs else x # remove_first P xs)"

text \<open>A method that mutates the object \<open>find\<close> returned changes it where it sits.\<close>

fun update_first :: "('a \<Rightarrow> bool) \<Rightarrow> ('a \<Rightarrow> 'a) \<Rightarrow> 'a list \<Rightarrow> 'a list" where
  "update_first P f [] = []"
| "update_first P f (x # xs) = (if P x then f x # xs else x # update_first P f xs)"

definition Room_removeItem :: "string \<Rightarrow> room \<Rightarrow> item option \<times> room" where
  "Room_removeItem itemId rm =
     (case find (\<lambda>i. i_id i = itemId) (r_items rm) of
        Some i \<Rightarrow> (Some i, rm\<lparr>r_items := remove_first (\<lambda>i. i_id i = itemId) (r_items rm)\<rparr>)
      | None \<Rightarrow> (None, rm))"

definition Room_removeCreature :: "string \<Rightarrow> room \<Rightarrow> creature option \<times> room" where
  "Room_removeCreature creatureId rm =
     (case find (\<lambda>c. c_id c = creatureId) (r_creatures rm) of
        Some c \<Rightarrow>
          (Some c, rm\<lparr>r_creatures := remove_first (\<lambda>c. c_id c = creatureId) (r_creatures rm)\<rparr>)
      | None \<Rightarrow> (None, rm))"

definition Room_getItem :: "string \<Rightarrow> room \<Rightarrow> item option" where
  "Room_getItem itemId rm = find (\<lambda>i. i_id i = itemId) (r_items rm)"

definition Room_getCreatureByName :: "string \<Rightarrow> room \<Rightarrow> creature option" where
  "Room_getCreatureByName name rm =
     find (\<lambda>c. toLowerCase (c_name c) = toLowerCase name) (r_creatures rm)"

text \<open>
  \<open>exits[key]\<close> as \<open>Player.move\<close> tests it: an own key gives its room id (the empty
  string is falsy, like a missing key); a key that only \<open>Object.prototype\<close> has gives the
  inherited object, which is truthy.
\<close>

definition object_prototype_keys :: "string list" where
  "object_prototype_keys =
     [''constructor'', ''__defineGetter__'', ''__defineSetter__'', ''hasOwnProperty'',
      ''__lookupGetter__'', ''__lookupSetter__'', ''isPrototypeOf'', ''propertyIsEnumerable'',
      ''toString'', ''valueOf'', ''__proto__'', ''toLocaleString'']"

definition exits_get :: "(string \<times> string) list \<Rightarrow> string \<Rightarrow> location option" where
  "exits_get exits key =
     (case map_of exits key of
        Some v \<Rightarrow> (if v = [] then None else Some (RoomId v))
      | None \<Rightarrow> (if key \<in> set object_prototype_keys then Some (Inherited key) else None))"

section \<open>The engine's registry\<close>

text \<open>
  \<open>getRoom(roomId)\<close> is \<open>this.rooms[roomId] || null\<close>. An inherited object used as a key
  is converted to a string that names no room. The room ids of the world are not names
  of properties of \<open>Object.prototype\<close>.
\<close>

definition getRoom :: "game \<Rightarrow> location \<Rightarrow> room option" where
  "getRoom g loc = (case loc of RoomId rid \<Rightarrow> map_of (rooms g) rid | Inherited k \<Rightarrow> None)"

text \<open>Writing back the room object that \<open>getRoom\<close> returned for this location.\<close>

definition setRoom :: "location \<Rightarrow> room \<Rightarrow> game \<Rightarrow> game" where
  "setRoom loc rm g =
     (case loc of RoomId rid \<Rightarrow> g\<lparr>rooms := AList.update rid rm (rooms g)\<rparr> | Inherited k \<Rightarrow> g)"

section \<open>Item effects\<close>

text \<open>
  \<open>item.use(player)\<close>, called by \<open>Player.use\<close> with the engine's player; the beacon's
  function writes the flags of the global engine.
\<close>

definition victory_text :: string where
  \<open>victory_text = ''<span class="success-text">You activate the rescue beacon! A signal shoots into the sky... Rescue is on the way! YOU WIN!</span>''\<close>

definition heal :: "int \<Rightarrow> player \<Rightarrow> player" where
  "heal healAmount p = p\<lparr>p_health := min (p_health p + healAmount) (p_maxHealth p)\<rparr>"

definition Item_use :: "item \<Rightarrow> game \<Rightarrow> string \<times> game" where
  \<open>Item_use it g =
     (case i_use it of
        DefaultUse \<Rightarrow> (''You can'' @ apos @ ''t use the '' @ i_name it @ '' right now.'', g)
      | MedkitUse \<Rightarrow>
          (''<span class="success-text">You use the medkit and restore '' @ string_of_int 50
             @ '' health.</span>'',
           g\<lparr>player := heal 50 (player g)\<rparr>)
      | EnergyBarUse \<Rightarrow>
          (''<span class="success-text">You eat the energy bar and restore '' @ string_of_int 20
             @ '' health.</span>'',
           g\<lparr>player := heal 20 (player g)\<rparr>)
      | FlashlightUse \<Rightarrow>
          (''<span class="info-text">You turn on the flashlight. The beam cuts through the darkness.</span>'',
           g)
      | BatteryUse \<Rightarrow>
          (if list_ex (\<lambda>i. i_id i = ''beacon'') (p_inventory (player g))
           then (''<span class="success-text">You install the battery in the beacon. It''
                   @ apos @ ''s now ready to activate!</span>'', g)
           else (''<span class="warning-text">You have nothing to use the battery with.</span>'', g))
      | BeaconUse \<Rightarrow>
          (if p_currentLocation (player g) = RoomId ''mountain_peak''
           then
             (if list_ex (\<lambda>i. i_id i = ''battery'') (p_inventory (player g))
              then (victory_text, g\<lparr>isWin := True, isGameOver := True\<rparr>)
              else (''<span class="warning-text">The beacon needs power. You need to find a battery first.</span>'',
                    g))
           else (''<span class="warning-text">You need to be at the mountain peak to activate the beacon effectively.</span>'',
                 g)))\<close>

section \<open>Player\<close>

definition Player_move :: "string \<Rightarrow> game \<Rightarrow> string \<times> game" where
  "Player_move direction g =
     (case getRoom g (p_currentLocation (player g)) of
        None \<Rightarrow> (''You'' @ apos @ ''re in an unknown location.'', g)
      | Some currentRoom \<Rightarrow>
          (case exits_get (r_exits currentRoom) (toLowerCase direction) of
             None \<Rightarrow> (''You can'' @ apos @ ''t go '' @ direction @ '' from here.'', g)
           | Some nextRoomId \<Rightarrow>
               (let g1 = g\<lparr>player := (player g)\<lparr>p_currentLocation := nextRoomId\<rparr>\<rparr>
                in case getRoom g1 nextRoomId of
                     None \<Rightarrow> (''You move to an unknown location.'', g1)
                   | Some nextRoom \<Rightarrow>
                       (let nextRoom1 = (if \<not> r_isVisited nextRoom
                                         then nextRoom\<lparr>r_isVisited := True\<rparr> else nextRoom)
                        in (Room_getDescription nextRoom1, setRoom nextRoomId nextRoom1 g1)))))"

text \<open>The tail of \<open>Player.take\<close>, once \<open>itemId\<close> is the id to remove.\<close>

definition take_by_id :: "string \<Rightarrow> room \<Rightarrow> game \<Rightarrow> string \<times> game" where
  "take_by_id itemId currentRoom g =
     (case Room_removeItem itemId currentRoom of
        (Some takenItem, room1) \<Rightarrow>
          (''You take the '' @ i_name takenItem @ ''.'',
           (setRoom (p_currentLocation (player g)) room1 g)
             \<lparr>player := (player g)\<lparr>p_inventory := p_inventory (player g) @ [takenItem]\<rparr>\<rparr>)
      | (None, room1) \<Rightarrow> (''You can'' @ apos @ ''t take that.'', g))"

definition Player_take :: "string \<Rightarrow> game \<Rightarrow> string \<times> game" where
  "Player_take itemId g =
     (case getRoom g (p_currentLocation (player g)) of
        None \<Rightarrow> (''You'' @ apos @ ''re in an unknown location.'', g)
      | Some currentRoom \<Rightarrow>
          (case Room_getItem itemId currentRoom of
             Some i \<Rightarrow> take_by_id itemId currentRoom g
           | None \<Rightarrow>
               (case find (\<lambda>i. toLowerCase (i_name i) = toLowerCase itemId) (r_items currentRoom) of
                  None \<Rightarrow> (''There is no '' @ itemId @ '' here.'', g)
                | Some itemByName \<Rightarrow> take_by_id (i_id itemByName) currentRoom g)))"

definition inventory_find :: "string \<Rightarrow> player \<Rightarrow> item option" where
  "inventory_find itemId p =
     find (\<lambda>i. i_id i = itemId \<or> toLowerCase (i_name i) = toLowerCase itemId) (p_inventory p)"

definition Player_use :: "string \<Rightarrow> game \<Rightarrow> string \<times> game" where
  "Player_use itemId g =
     (case inventory_find itemId (player g) of
        None \<Rightarrow> (''You don'' @ apos @ ''t have a '' @ itemId @ ''.'', g)
      | Some it \<Rightarrow>
          (if \<not> i_isUsable it then (''You can'' @ apos @ ''t use the '' @ i_name it @ ''.'', g)
           else Item_use it g))"

text \<open>The player's roll: \<open>Math.floor(Math.random() * 15) + 5\<close>.\<close>

definition playerDamage :: "real \<Rightarrow> int" where
  "playerDamage r = random_below r 15 + 5"

text \<open>
  \<open>Player.attack\<close>; \<open>r1\<close> and \<open>r2\<close> are the values of the two calls of \<open>Math.random()\<close>,
  the player's and the creature's.
\<close>

definition Player_attack :: "real \<Rightarrow> real \<Rightarrow> string \<Rightarrow> game \<Rightarrow> string \<times> game" where
  "Player_attack r1 r2 creatureName g =
     (case getRoom g (p_currentLocation (player g)) of
        None \<Rightarrow> (''You'' @ apos @ ''re in an unknown location.'', g)
      | Some currentRoom \<Rightarrow>
          (case Room_getCreatureByName creatureName currentRoom of
             None \<Rightarrow> (''There is no '' @ creatureName @ '' here.'', g)
           | Some c \<Rightarrow>
               if \<not> c_isAlive c then (''The '' @ creatureName @ '' is already dead.'', g)
               else if \<not> c_isHostile c
               then (''The '' @ creatureName @ '' is not hostile and doesn'' @ apos
                       @ ''t want to fight.'', g)
               else
                 (let (creatureDied, c1) = Creature_takeDamage (playerDamage r1) c;
                      room1 = currentRoom
                        \<lparr>r_creatures :=
                           update_first (\<lambda>x. toLowerCase (c_name x) = toLowerCase creatureName)
                             (\<lambda>x. c1) (r_creatures currentRoom)\<rparr>;
                      result = ''You attack the '' @ c_name c1 @ '' for ''
                               @ string_of_int (playerDamage r1) @ '' damage!''
                  in if creatureDied
                     then (result @ '' The '' @ c_name c1 @ '' is dead!'',
                           setRoom (p_currentLocation (player g))
                             (snd (Room_removeCreature (c_id c1) room1)) g)
                     else
                       (let (counterAttack, p1) = Creature_attack r2 c1 (player g)
                        in (result @ nl
                              @ (case counterAttack of None \<Rightarrow> ''undefined'' | Some m \<Rightarrow> m),
                            (setRoom (p_currentLocation (player g)) room1 g)\<lparr>player := p1\<rparr>)))))"

definition Player_checkStatus :: "player \<Rightarrow> string" where
  "Player_checkStatus p =
     (if \<not> p_isAlive p then ''You are dead.''
      else ''Health: '' @ string_of_int (p_health p) @ ''/'' @ string_of_int (p_maxHealth p))"

definition Player_getInventory :: "player \<Rightarrow> string" where
  "Player_getInventory p =
     (if length (p_inventory p) = 0 then ''Your inventory is empty.''
      else js_join '', '' (map i_name (p_inventory p)))"

section \<open>World construction\<close>

definition createRooms :: "(string \<times> room) list" where
  "createRooms =
     [(''crash_site'',
       (Room ''crash_site'' ''Crash Site''
          ''The smoldering wreckage of your spaceship lies scattered around you. The alien air is thin and cold. Strange purple plants grow in clusters around the metal debris.''
          ''assets/crash_site.png'')
       \<lparr>r_exits := [(''north'', ''alien_forest''), (''east'', ''crystal_caves'')]\<rparr>),
      (''alien_forest'',
       (Room ''alien_forest'' ''Alien Forest''
          ''Tall, bioluminescent trees tower above you, their glowing blue leaves casting eerie shadows. The ground is soft and spongy, and you hear strange rustling sounds in the distance.''
          ''assets/alien_forest.png'')
       \<lparr>r_exits := [(''south'', ''crash_site''), (''east'', ''mountain_peak''),
                    (''west'', ''underground_tunnels'')]\<rparr>),
      (''crystal_caves'',
       (Room ''crystal_caves'' ''Crystal Caves''
          ''The walls of this cave are lined with shimmering crystals that pulse with an inner light. The air hums with energy, and you can hear dripping water echoing in the distance.''
          ''assets/crystal_caves.png'')
       \<lparr>r_exits := [(''west'', ''crash_site''), (''north'', ''research_facility'')]\<rparr>),
      (''research_facility'',
       (Room ''research_facility'' ''Abandoned Research Facility''
          ''This once-bustling research facility is now silent and dusty. Broken equipment lines the walls, and computer screens flicker with error messages. Papers and data pads are scattered on the floor.''
          ''assets/research_facility.png'')
       \<lparr>r_exits := [(''south'', ''crystal_caves''), (''east'', ''mountain_peak'')]\<rparr>),
      (''mountain_peak'',
       (Room ''mountain_peak'' ''Mountain Peak''
          ''You stand at the highest point of the alien mountain range. The view is breathtaking - you can see the entire alien landscape spread out below. The wind howls fiercely at this altitude.''
          ''assets/mountain_peak.png'')
       \<lparr>r_exits := [(''west'', ''alien_forest''), (''south'', ''research_facility'')]\<rparr>),
      (''underground_tunnels'',
       (Room ''underground_tunnels'' ''Underground Tunnels''
          (''These dark, narrow tunnels wind deep beneath the planet'' @ apos
             @ ''s surface. The air is damp and musty, and strange markings cover the walls.'')
          ''assets/underground_tunnels.png'')
       \<lparr>r_exits := [(''east'', ''alien_forest''), (''north'', ''crystal_caves'')]\<rparr>)]"

definition medkit :: item where
  "medkit = (Item ''medkit'' ''Medkit'' ''A medical kit that can restore health.'' True False)
              \<lparr>i_use := MedkitUse\<rparr>"

definition energy_bar :: item where
  "energy_bar =
     (Item ''energy_bar'' ''Energy Bar''
        ''A high-energy food bar that restores a small amount of health.'' True False)
     \<lparr>i_use := EnergyBarUse\<rparr>"

definition flashlight :: item where
  "flashlight =
     (Item ''flashlight'' ''Flashlight''
        ''A sturdy flashlight that can illuminate dark areas.'' True False)
     \<lparr>i_use := FlashlightUse\<rparr>"

definition knife :: item where
  "knife =
     Item ''knife'' ''Combat Knife''
       ''A sharp combat knife that increases your damage in combat.'' False True"

definition keycard :: item where
  "keycard =
     Item ''keycard'' ''Research Facility Keycard''
       ''A keycard that grants access to the research facility.'' False False"

definition battery :: item where
  "battery =
     (Item ''battery'' ''Power Battery''
        ''A high-capacity battery that can power electronic devices.'' True False)
     \<lparr>i_use := BatteryUse\<rparr>"

definition beacon :: item where
  "beacon =
     (Item ''beacon'' ''Rescue Beacon''
        ''A distress beacon that can call for rescue when activated at the mountain peak.''
        True False)
     \<lparr>i_use := BeaconUse\<rparr>"

definition crystal :: item where
  "crystal =
     Item ''crystal'' ''Energy Crystal''
       ''A glowing crystal that hums with power. It might be useful for repairing equipment.''
       False False"

definition datapad :: item where
  "datapad =
     Item ''datapad'' ''Research Datapad''
       ''A datapad containing research notes about the alien planet.'' False False"

definition xenomorph :: creature where
  "xenomorph =
     Creature ''xenomorph'' ''Xenomorph''
       ''A terrifying alien creature with sharp claws and dripping fangs. It moves with unnatural speed.''
       50 15 True"

definition alien_beast :: creature where
  "alien_beast =
     Creature ''alien_beast'' ''Alien Beast''
       ''A large, six-legged creature with tough hide and powerful jaws. It looks hungry.''
       70 10 True"

definition swarm :: creature where
  "swarm =
     Creature ''swarm'' ''Alien Swarm''
       ''A swarm of small, flying alien creatures that move as one. Individually weak, but dangerous in numbers.''
       30 8 True"

definition friendly_alien :: creature where
  "friendly_alien =
     Creature ''friendly_alien'' ''Peaceful Alien''
       ''A small, timid creature with large eyes. It seems curious rather than hostile.''
       20 0 False"

text \<open>\<open>this.rooms.<rid>.addItem(..)\<close> and \<open>addCreature(..)\<close> on the registry.\<close>

definition addItem :: "string \<Rightarrow> item \<Rightarrow> (string \<times> room) list \<Rightarrow> (string \<times> room) list" where
  "addItem rid i rs = AList.map_entry rid (Room_addItem i) rs"

definition addCreature :: "string \<Rightarrow> creature \<Rightarrow> (string \<times> room) list \<Rightarrow> (string \<times> room) list" where
  "addCreature rid c rs = AList.map_entry rid (Room_addCreature c) rs"

definition placeItemsAndCreatures :: "(string \<times> room) list \<Rightarrow> (string \<times> room) list" where
  "placeItemsAndCreatures rs =
     (addCreature ''underground_tunnels'' friendly_alien
     (addItem ''underground_tunnels'' knife
     (addItem ''mountain_peak'' beacon
     (addCreature ''research_facility'' alien_beast
     (addItem ''research_facility'' battery
     (addItem ''research_facility'' datapad
     (addItem ''research_facility'' keycard
     (addCreature ''crystal_caves'' swarm
     (addItem ''crystal_caves'' crystal
     (addCreature ''alien_forest'' xenomorph
     (addItem ''alien_forest'' medkit
     (addItem ''crash_site'' energy_bar
     (addItem ''crash_site'' flashlight rs)))))))))))))"

text \<open>The state \<open>initializeGame\<close> leaves: the placed world, the start room visited.\<close>

definition initializeGame :: game where
  "initializeGame =
     (let g = \<lparr>rooms = placeItemsAndCreatures createRooms, player = Player ''crash_site'',
               isGameOver = False, isWin = False\<rparr>
      in case getRoom g (p_currentLocation (player g)) of
           Some startRoom \<Rightarrow>
             setRoom (p_currentLocation (player g)) (startRoom\<lparr>r_isVisited := True\<rparr>) g
         | None \<Rightarrow> g)"

section \<open>Command processing\<close>

definition getHelpText :: string where
  "getHelpText =
     ''Available commands:'' @ nl
     @ ''- go/move/walk [direction] - Move in a direction (north, south, east, west)'' @ nl
     @ ''- look/l - Look around the current area'' @ nl
     @ ''- take/get [item] - Pick up an item'' @ nl
     @ ''- use [item] - Use an item from your inventory'' @ nl
     @ ''- attack/fight/hit [creature] - Attack a creature'' @ nl
     @ ''- inventory/inv/i - Check your inventory'' @ nl
     @ ''- status/health/hp - Check your health status'' @ nl
     @ ''- help/h/? - Show this help text'' @ nl
     @ nl
     @ ''Your goal: Survive the alien creatures and find a way to call for rescue!''"

definition checkGameConditions :: "game \<Rightarrow> game" where
  "checkGameConditions g = (if \<not> p_isAlive (player g) then g\<lparr>isGameOver := True\<rparr> else g)"

text \<open>\<open>parts[0]\<close> and \<open>parts.slice(1).join(' ')\<close> of the trimmed, lower-cased command.\<close>

definition parse_command :: "string \<Rightarrow> string \<times> string" where
  "parse_command command =
     (let parts = js_split (toLowerCase (trim command))
      in (case parts of [] \<Rightarrow> [] | a # ps \<Rightarrow> a, js_join '' '' (tl parts)))"

text \<open>The case labels of the \<open>switch\<close>.\<close>

definition vocabulary :: "string list" where
  "vocabulary =
     [''go'', ''move'', ''walk'', ''look'', ''l'', ''take'', ''get'', ''use'', ''attack'', ''fight'',
      ''hit'', ''inventory'', ''inv'', ''i'', ''status'', ''health'', ''hp'', ''help'', ''h'', ''?'']"

definition not_understood :: "string \<Rightarrow> string" where
  "not_understood command =
     ''I don'' @ apos @ ''t understand '' @ apos @ command @ apos @ ''. Type '' @ apos @ ''help''
       @ apos @ '' for available commands.''"

text \<open>The \<open>switch\<close> of \<open>processCommand\<close>.\<close>

definition dispatch :: "real \<Rightarrow> real \<Rightarrow> string \<Rightarrow> string \<Rightarrow> string \<Rightarrow> game \<Rightarrow> string \<times> game" where
  "dispatch r1 r2 command action target g =
     (if action \<in> set [''go'', ''move'', ''walk''] then
        (if target = [] then (''Go where? Specify a direction (north, south, east, west).'', g)
         else Player_move target g)
      else if action \<in> set [''look'', ''l''] then
        (case getRoom g (p_currentLocation (player g)) of
           Some currentRoom \<Rightarrow> (Room_getDescription currentRoom, g)
         | None \<Rightarrow> (''You'' @ apos @ ''re in an unknown location.'', g))
      else if action \<in> set [''take'', ''get''] then
        (if target = [] then (''Take what? Specify an item name.'', g)
         else Player_take target g)
      else if action = ''use'' then
        (if target = [] then (''Use what? Specify an item name.'', g)
         else Player_use target g)
      else if action \<in> set [''attack'', ''fight'', ''hit''] then
        (if target = [] then (''Attack what? Specify a creature name.'', g)
         else Player_attack r1 r2 target g)
      else if action \<in> set [''inventory'', ''inv'', ''i''] then
        (''Inventory: '' @ Player_getInventory (player g), g)
      else if action \<in> set [''status'', ''health'', ''hp''] then
        (''Status: '' @ Player_checkStatus (player g), g)
      else if action \<in> set [''help'', ''h'', ''?''] then (getHelpText, g)
      else (not_understood command, g))"

definition processCommand :: "real \<Rightarrow> real \<Rightarrow> string \<Rightarrow> game \<Rightarrow> string \<times> game" where
  "processCommand r1 r2 command g =
     (if isGameOver g then (''The game is over. Refresh the page to play again.'', g)
      else
        (let (action, target) = parse_command command;
             (result, g1) = dispatch r1 r2 command action target g
         in (result, checkGameConditions g1)))"

text \<open>
  The states the engine can be in: the one \<open>initializeGame\<close> builds, and those
  \<open>processCommand\<close> leaves, on any command, with any values of \<open>Math.random()\<close>
  (which lie in \<open>[0, 1)\<close>).
\<close>

inductive reachable :: "game \<Rightarrow> bool" where
  reachable_init: "reachable initializeGame"
| reachable_step:
    "reachable g \<Longrightarrow> 0 \<le> r1 \<Longrightarrow> r1 < 1 \<Longrightarrow> 0 \<le> r2 \<Longrightarrow> r2 < 1
     \<Longrightarrow> reachable (snd (processCommand r1 r2 command g))"

section \<open>Notions used to state the properties\<close>

text \<open>The room id that the exit \<open>direction\<close> of room \<open>rid\<close> holds, if the room has it.\<close>

definition exit_of :: "game \<Rightarrow> string \<Rightarrow> string \<Rightarrow> string option" where
  "exit_of g rid direction =
     (case getRoom g (RoomId rid) of None \<Rightarrow> None | Some rm \<Rightarrow> map_of (r_exits rm) direction)"

text \<open>North and south swapped, east and west swapped.\<close>

definition opposite :: "string \<Rightarrow> string" where
  "opposite d =
     (if d = ''north'' then ''south'' else if d = ''south'' then ''north''
      else if d = ''east'' then ''west'' else if d = ''west'' then ''east'' else d)"

text \<open>The exit \<open>d\<close> of room \<open>a\<close> leads to a room whose opposite exit leads back to \<open>a\<close>.\<close>

definition has_reverse_edge :: "game \<Rightarrow> string \<Rightarrow> string \<Rightarrow> bool" where
  "has_reverse_edge g a d =
     (case exit_of g a d of None \<Rightarrow> False | Some b \<Rightarrow> exit_of g b (opposite d) = Some a)"

text \<open>Every exit of the world, as (room id, direction).\<close>

definition all_exits :: "game \<Rightarrow> (string \<times> string) list" where
  "all_exits g = concat (map (\<lambda>(rid, rm). map (\<lambda>(d, b). (rid, d)) (r_exits rm)) (rooms g))"

text \<open>
  What holds of every state the engine reaches: the items are those of the world, a
  room holds at most one creature and only live ones, the peak holds none, the player's
  health is within bounds and decides the alive flag, and a dead player or a win ends
  the game.
\<close>

definition world_items :: "item list" where
  "world_items = [medkit, energy_bar, flashlight, knife, keycard, battery, beacon, crystal, datapad]"

text \<open>The room in which \<open>placeItemsAndCreatures\<close> puts an item.\<close>

definition item_home :: "item \<Rightarrow> string option" where
  "item_home i = map_option fst (find (\<lambda>e. i \<in> set (r_items (snd e))) (rooms initializeGame))"

definition creature_inv :: "creature \<Rightarrow> bool" where
  "creature_inv c =
     (c_isAlive c \<and> 0 < c_health c \<and> c_health c \<le> c_maxHealth c \<and> 0 \<le> c_damage c)"

definition room_inv :: "string \<times> room \<Rightarrow> bool" where
  "room_inv e =
     (case e of (rid, rm) \<Rightarrow>
        set (r_items rm) \<subseteq> set world_items \<and> distinct (r_items rm)
        \<and> list_all (\<lambda>i. item_home i = Some rid) (r_items rm)
        \<and> length (r_creatures rm) \<le> 1 \<and> list_all creature_inv (r_creatures rm)
        \<and> (rid = ''mountain_peak'' \<longrightarrow> r_creatures rm = []))"

definition player_inv :: "player \<Rightarrow> bool" where
  "player_inv p =
     (p_maxHealth p = 100 \<and> 0 \<le> p_health p \<and> p_health p \<le> p_maxHealth p
      \<and> p_isAlive p = (0 < p_health p)
      \<and> set (p_inventory p) \<subseteq> set world_items
      \<and> (\<not> p_isAlive p \<longrightarrow> p_currentLocation p \<noteq> RoomId ''mountain_peak''))"

definition pre_inv :: "game \<Rightarrow> bool" where
  "pre_inv g =
     (list_all room_inv (rooms g) \<and> player_inv (player g)
      \<and> (isGameOver g \<longrightarrow> isWin g \<or> \<not> p_isAlive (player g)) \<and> (isWin g \<longrightarrow> isGameOver g))"

text \<open>The inventory holds no item twice and no item that is still in a room.\<close>

definition inventory_apart :: "game \<Rightarrow> bool" where
  "inventory_apart g =
     (distinct (p_inventory (player g))
      \<and> (\<forall>rid rm. getRoom g (RoomId rid) = Some rm
             \<longrightarrow> set (r_items rm) \<inter> set (p_inventory (player g)) = {}))"

text \<open>What the rooms and the inventory hold of items.\<close>

definition items_view :: "game \<Rightarrow> item list \<times> (string \<Rightarrow> item list option)" where
  "items_view g = (p_inventory (player g), \<lambda>rid. map_option r_items (getRoom g (RoomId rid)))"

definition invariant :: "game \<Rightarrow> bool" where
  "invariant g = (pre_inv g \<and> (\<not> p_isAlive (player g) \<longrightarrow> isGameOver g))"

section \<open>Runs of the game\<close>

text \<open>
  Some states a player reaches; the theorems below are instantiated at them. In the
  forest the player has gone north from the crash site. After two attacks that roll 19
  the xenomorph is left with 12 of its 50 points. With the medkit taken and one counter
  attack of 10 the player stands at 90. On the peak the player holds the battery and the
  beacon, and is rescued once the beacon is used.
\<close>

definition in_forest :: game where
  "in_forest = snd (processCommand 0 0 ''go north'' initializeGame)"

definition forest_fight :: game where
  "forest_fight =
     snd (processCommand (14 / 15) 0 ''attack xenomorph''
       (snd (processCommand (14 / 15) 0 ''attack xenomorph'' in_forest)))"

definition hurt_with_medkit :: game where
  "hurt_with_medkit =
     snd (processCommand 0 (3 / 5) ''attack xenomorph''
       (snd (processCommand 0 0 ''take medkit'' in_forest)))"

definition on_peak_equipped :: game where
  "on_peak_equipped =
     snd (processCommand 0 0 ''take beacon''
       (snd (processCommand 0 0 ''go east''
         (snd (processCommand 0 0 ''take battery''
           (snd (processCommand 0 0 ''go north''
             (snd (processCommand 0 0 ''go east'' initializeGame)))))))))"

definition rescued :: game where
  "rescued = snd (processCommand 0 0 ''use beacon'' on_peak_equipped)"

section \<open>The invariant of the reachable states\<close>

lemma invariant_init: "invariant initializeGame"
  by code_simp

lemma getRoom_inv:
  "list_all room_inv (rooms g) \<Longrightarrow> getRoom g loc = Some rm \<Longrightarrow> \<exists>rid. loc = RoomId rid \<and> room_inv (rid, rm)"
  by (cases loc) (auto simp: getRoom_def list_all_iff dest: map_of_SomeD)

lemma list_all_update:
  "list_all P al \<Longrightarrow> P (k, v) \<Longrightarrow> list_all P (AList.update k v al)"
  by (induction al) auto

lemma setRoom_rooms_inv:
  "list_all room_inv (rooms g) \<Longrightarrow> room_inv (rid, rm) \<Longrightarrow> list_all room_inv (rooms (setRoom (RoomId rid) rm g))"
  by (simp add: setRoom_def list_all_update)

lemma setRoom_fields [simp]:
  "player (setRoom loc rm g) = player g"
  "isGameOver (setRoom loc rm g) = isGameOver g"
  "isWin (setRoom loc rm g) = isWin g"
  by (cases loc; simp add: setRoom_def)+

lemma getRoom_player_upd [simp]: "getRoom (g\<lparr>player := p\<rparr>) loc = getRoom g loc"
  by (cases loc) (simp_all add: getRoom_def)

lemma getRoom_setRoom [simp]:
  "getRoom (setRoom (RoomId rid) rm g) (RoomId rid) = Some rm"
  by (simp add: getRoom_def setRoom_def update_conv')

lemma pre_inv_move:
  assumes "invariant g" "\<not> isGameOver g"
  shows "pre_inv (snd (Player_move direction g))"
proof -
  from assms have alive: "p_isAlive (player g)" and pre: "pre_inv g"
    by (auto simp: invariant_def split: if_splits)
  show ?thesis
  proof (cases "getRoom g (p_currentLocation (player g))")
    case None
    then show ?thesis using pre by (simp add: Player_move_def)
  next
    case (Some currentRoom)
    show ?thesis
    proof (cases "exits_get (r_exits currentRoom) (toLowerCase direction)")
      case None
      then show ?thesis using pre Some by (simp add: Player_move_def)
    next
      case (Some nx)
      note nxt = this
      let ?g1 = "g\<lparr>player := (player g)\<lparr>p_currentLocation := nx\<rparr>\<rparr>"
      have pre1: "pre_inv ?g1" using pre alive assms(2) by (simp add: pre_inv_def player_inv_def)
      show ?thesis
      proof (cases "getRoom g nx")
        case None
        then show ?thesis using pre1 nxt \<open>getRoom g _ = Some currentRoom\<close>
          by (simp add: Player_move_def Let_def)
      next
        case (Some nextRoom)
        then obtain rid where rid: "nx = RoomId rid" "room_inv (rid, nextRoom)"
          using getRoom_inv pre by (fastforce simp: pre_inv_def)
        have "room_inv (rid, nextRoom\<lparr>r_isVisited := True\<rparr>)"
          using rid(2) by (simp add: room_inv_def)
        then show ?thesis using pre1 nxt Some rid \<open>getRoom g _ = Some currentRoom\<close>
          by (simp add: Player_move_def Let_def pre_inv_def setRoom_rooms_inv)
      qed
    qed
  qed
qed

lemma set_remove_first: "set (remove_first P xs) \<subseteq> set xs"
  by (induction xs) auto

lemma distinct_remove_first: "distinct xs \<Longrightarrow> distinct (remove_first P xs)"
proof (induction xs)
  case Nil
  then show ?case by simp
next
  case (Cons x xs)
  then show ?case using set_remove_first [of P xs] by auto
qed

lemma find_SomeD: "find P xs = Some x \<Longrightarrow> x \<in> set xs \<and> P x"
  by (induction xs) (auto split: if_splits)

lemma pre_inv_take_by_id:
  assumes "pre_inv g" "getRoom g (p_currentLocation (player g)) = Some currentRoom"
  shows "pre_inv (snd (take_by_id itemId currentRoom g))"
proof (cases "find (\<lambda>i. i_id i = itemId) (r_items currentRoom)")
  case None
  then show ?thesis using assms(1) by (simp add: take_by_id_def Room_removeItem_def)
next
  case (Some t)
  obtain rid where rid: "p_currentLocation (player g) = RoomId rid" "room_inv (rid, currentRoom)"
    using getRoom_inv assms by (fastforce simp: pre_inv_def)
  let ?room1 = "currentRoom\<lparr>r_items := remove_first (\<lambda>i. i_id i = itemId) (r_items currentRoom)\<rparr>"
  have r1: "room_inv (rid, ?room1)"
    using rid(2) set_remove_first [of "\<lambda>i. i_id i = itemId" "r_items currentRoom"]
    by (auto simp: room_inv_def distinct_remove_first list_all_iff)
  have t: "t \<in> set world_items"
    using find_SomeD [OF Some] rid(2) by (auto simp: room_inv_def)
  have rooms1: "list_all room_inv (rooms (setRoom (RoomId rid) ?room1 g))"
    using assms(1) r1 by (simp add: pre_inv_def setRoom_rooms_inv)
  show ?thesis
    using Some rid(1) rooms1 t assms(1)
    by (auto simp: take_by_id_def Room_removeItem_def pre_inv_def player_inv_def)
qed

lemma pre_inv_take:
  assumes "pre_inv g"
  shows "pre_inv (snd (Player_take itemId g))"
  using assms pre_inv_take_by_id
  by (simp add: Player_take_def split: option.splits)

lemma pre_inv_use:
  assumes "invariant g" "\<not> isGameOver g"
  shows "pre_inv (snd (Player_use itemId g))"
proof -
  from assms have alive: "p_isAlive (player g)" and pre: "pre_inv g"
    by (auto simp: invariant_def split: if_splits)
  have heal: "\<And>k. 0 \<le> k \<Longrightarrow> pre_inv (g\<lparr>player := heal k (player g)\<rparr>)"
    using pre alive by (auto simp: pre_inv_def player_inv_def heal_def)
  have win: "pre_inv (g\<lparr>isWin := True, isGameOver := True\<rparr>)"
    using pre by (simp add: pre_inv_def)
  have "pre_inv (snd (Item_use it g))" for it
    using pre heal [of 50] heal [of 20] win
    by (cases "i_use it") (simp_all add: Item_use_def)
  then show ?thesis using pre
    by (simp add: Player_use_def split: option.splits)
qed

lemma random_below_nonneg: "0 \<le> r \<Longrightarrow> 0 \<le> n \<Longrightarrow> 0 \<le> random_below r n"
  by (simp add: random_below_def)

lemma random_below_bounds:
  assumes "0 \<le> r" "r < 1" "0 < n"
  shows "0 \<le> random_below r n \<and> random_below r n < n"
proof -
  have lo: "0 \<le> random_below r n" using assms by (simp add: random_below_def)
  have "r * of_int n < of_int n" using assms by simp
  then have "random_below r n < n" unfolding random_below_def by (simp add: floor_less_iff)
  with lo show ?thesis by simp
qed

lemma playerDamage_bounds: "0 \<le> r \<Longrightarrow> r < 1 \<Longrightarrow> 5 \<le> playerDamage r \<and> playerDamage r \<le> 19"
  using random_below_bounds [of r 15] by (simp add: playerDamage_def)

lemma find_singleton: "length xs \<le> 1 \<Longrightarrow> find P xs = Some c \<Longrightarrow> xs = [c] \<and> P c"
  by (cases xs) (auto split: if_splits)

lemma Player_takeDamage_inv:
  assumes "player_inv p" "p_isAlive p" "0 \<le> d" "p_currentLocation p \<noteq> RoomId ''mountain_peak''"
  shows "player_inv (Player_takeDamage d p)"
  using assms by (auto simp: player_inv_def Player_takeDamage_def Let_def)

lemma pre_inv_attack:
  assumes "invariant g" "\<not> isGameOver g" "0 \<le> r1" "r1 < 1" "0 \<le> r2"
  shows "pre_inv (snd (Player_attack r1 r2 creatureName g))"
proof -
  from assms have alive: "p_isAlive (player g)" and pre: "pre_inv g"
    by (auto simp: invariant_def split: if_splits)
  show ?thesis
  proof (cases "getRoom g (p_currentLocation (player g))")
    case None
    then show ?thesis using pre by (simp add: Player_attack_def)
  next
    case (Some currentRoom)
    note room = this
    obtain rid where rid: "p_currentLocation (player g) = RoomId rid" "room_inv (rid, currentRoom)"
      using getRoom_inv room pre by (fastforce simp: pre_inv_def)
    show ?thesis
    proof (cases "Room_getCreatureByName creatureName currentRoom")
      case None
      then show ?thesis using pre room by (simp add: Player_attack_def)
    next
      case (Some c)
      let ?P = "\<lambda>x. toLowerCase (c_name x) = toLowerCase creatureName"
      have cs: "r_creatures currentRoom = [c]" and Pc: "?P c"
        using find_singleton [of "r_creatures currentRoom" ?P c] Some rid(2)
        by (auto simp: Room_getCreatureByName_def room_inv_def)
      have cinv: "creature_inv c" using cs rid(2) by (simp add: room_inv_def)
      have notpeak: "rid \<noteq> ''mountain_peak''" using cs rid(2) by (auto simp: room_inv_def)
      have dmg: "5 \<le> playerDamage r1" using playerDamage_bounds assms by simp
      show ?thesis
      proof (cases "c_isHostile c")
        case False
        then show ?thesis using pre room Some cinv by (simp add: Player_attack_def creature_inv_def)
      next
        case True
        note hostile = this
        show ?thesis
        proof (cases "c_health c - playerDamage r1 \<le> 0")
          case True
          let ?c1 = "c\<lparr>c_health := 0, c_isAlive := False\<rparr>"
          have td: "Creature_takeDamage (playerDamage r1) c = (True, ?c1)"
            using True by (simp add: Creature_takeDamage_def)
          have r1: "room_inv (rid, currentRoom\<lparr>r_creatures := []\<rparr>)"
            using rid(2) by (simp add: room_inv_def)
          have "snd (Player_attack r1 r2 creatureName g)
                = setRoom (RoomId rid) (currentRoom\<lparr>r_creatures := []\<rparr>) g"
            using room Some cinv hostile td cs Pc rid(1)
            by (simp add: Player_attack_def creature_inv_def Room_removeCreature_def)
          then show ?thesis using pre r1 by (simp add: pre_inv_def setRoom_rooms_inv)
        next
          case False
          let ?c1 = "c\<lparr>c_health := c_health c - playerDamage r1\<rparr>"
          have td: "Creature_takeDamage (playerDamage r1) c = (False, ?c1)"
            using False by (simp add: Creature_takeDamage_def)
          have c1inv: "creature_inv ?c1" using cinv False dmg by (simp add: creature_inv_def)
          have r1: "room_inv (rid, currentRoom\<lparr>r_creatures := [?c1]\<rparr>)"
            using rid(2) c1inv notpeak by (simp add: room_inv_def)
          let ?d = "random_below r2 (c_damage c) + 1"
          have d: "0 \<le> ?d" using random_below_nonneg [of r2 "c_damage c"] cinv assms
            by (simp add: creature_inv_def)
          have ca: "snd (Creature_attack r2 ?c1 (player g)) = Player_takeDamage ?d (player g)"
            using cinv hostile by (simp add: Creature_attack_def creature_inv_def Let_def)
          have p1: "player_inv (Player_takeDamage ?d (player g))"
            using Player_takeDamage_inv [OF _ alive d] pre rid(1) notpeak by (simp add: pre_inv_def)
          have "snd (Player_attack r1 r2 creatureName g)
                = (setRoom (RoomId rid) (currentRoom\<lparr>r_creatures := [?c1]\<rparr>) g)
                    \<lparr>player := Player_takeDamage ?d (player g)\<rparr>"
            using room Some cinv hostile td cs Pc rid(1) ca
            by (simp add: Player_attack_def creature_inv_def case_prod_beta)
          then show ?thesis using pre r1 p1 assms(2)
            by (simp add: pre_inv_def setRoom_rooms_inv)
        qed
      qed
    qed
  qed
qed

lemma pre_inv_dispatch:
  assumes "invariant g" "\<not> isGameOver g" "0 \<le> r1" "r1 < 1" "0 \<le> r2"
  shows "pre_inv (snd (dispatch r1 r2 command action target g))"
proof -
  have pre: "pre_inv g" using assms(1) by (simp add: invariant_def)
  show ?thesis
    unfolding dispatch_def
    using pre pre_inv_move [OF assms(1,2)] pre_inv_take [OF pre] pre_inv_use [OF assms(1,2)]
      pre_inv_attack [OF assms]
    by (simp split: option.splits)
qed

lemma invariant_check: "pre_inv g \<Longrightarrow> invariant (checkGameConditions g)"
  by (auto simp: invariant_def pre_inv_def checkGameConditions_def)

lemma invariant_processCommand:
  assumes "invariant g" "0 \<le> r1" "r1 < 1" "0 \<le> r2"
  shows "invariant (snd (processCommand r1 r2 command g))"
proof (cases "isGameOver g")
  case True
  then show ?thesis using assms(1) by (simp add: processCommand_def)
next
  case False
  then show ?thesis
    using pre_inv_dispatch [OF assms(1) False assms(2-4)] invariant_check
    by (simp add: processCommand_def split: prod.splits)
       (metis snd_conv)
qed

lemma reachable_invariant: "reachable g \<Longrightarrow> invariant g"
  by (induction rule: reachable.induct) (simp_all add: invariant_init invariant_processCommand)

section \<open>Running one command\<close>

lemma player_checkGameConditions [simp]: "player (checkGameConditions g) = player g"
  by (simp add: checkGameConditions_def)

lemma rooms_checkGameConditions [simp]: "rooms (checkGameConditions g) = rooms g"
  by (simp add: checkGameConditions_def)

lemma getRoom_checkGameConditions [simp]: "getRoom (checkGameConditions g) loc = getRoom g loc"
  by (cases loc) (simp_all add: getRoom_def)

lemma checkGameConditions_alive: "p_isAlive (player g) \<Longrightarrow> checkGameConditions g = g"
  by (simp add: checkGameConditions_def)

lemma reachable_alive: "reachable g \<Longrightarrow> \<not> isGameOver g \<Longrightarrow> p_isAlive (player g)"
  using reachable_invariant [of g] by (auto simp: invariant_def)

lemma reachable_rooms_inv: "reachable g \<Longrightarrow> list_all room_inv (rooms g)"
  using reachable_invariant [of g] by (simp add: invariant_def pre_inv_def)

lemma processCommand_running:
  "\<not> isGameOver g \<Longrightarrow> parse_command command = (a, t) \<Longrightarrow>
     processCommand r1 r2 command g
       = (fst (dispatch r1 r2 command a t g), checkGameConditions (snd (dispatch r1 r2 command a t g)))"
  by (simp add: processCommand_def case_prod_beta)

lemma dispatch_move:
  "a \<in> set [''go'', ''move'', ''walk''] \<Longrightarrow> t \<noteq> [] \<Longrightarrow> dispatch r1 r2 command a t g = Player_move t g"
  by (simp add: dispatch_def)

lemma dispatch_take:
  "a \<in> set [''take'', ''get''] \<Longrightarrow> t \<noteq> [] \<Longrightarrow> dispatch r1 r2 command a t g = Player_take t g"
  by (auto simp: dispatch_def)

lemma dispatch_use:
  "t \<noteq> [] \<Longrightarrow> dispatch r1 r2 command ''use'' t g = Player_use t g"
  by (simp add: dispatch_def)

lemma dispatch_attack:
  "a \<in> set [''attack'', ''fight'', ''hit''] \<Longrightarrow> t \<noteq> [] \<Longrightarrow>
     dispatch r1 r2 command a t g = Player_attack r1 r2 t g"
  by (auto simp: dispatch_def)

lemma dispatch_unknown:
  "a \<notin> set vocabulary \<Longrightarrow> dispatch r1 r2 command a t g = (not_understood command, g)"
  by (simp add: dispatch_def vocabulary_def)

lemma reachable_player_inv: "reachable g \<Longrightarrow> player_inv (player g)"
  using reachable_invariant [of g] by (simp add: invariant_def pre_inv_def)

lemma Player_attack_kill:
  assumes "list_all room_inv (rooms g)"
    and "getRoom g (p_currentLocation (player g)) = Some rm"
    and "Room_getCreatureByName t rm = Some c"
    and "c_isHostile c" and "c_health c \<le> playerDamage r1"
  shows "r_creatures rm = [c]"
    and "snd (Player_attack r1 r2 t g)
           = setRoom (p_currentLocation (player g)) (rm\<lparr>r_creatures := []\<rparr>) g"
proof -
  obtain rid where rid: "p_currentLocation (player g) = RoomId rid" "room_inv (rid, rm)"
    using getRoom_inv assms(1,2) by blast
  let ?P = "\<lambda>x. toLowerCase (c_name x) = toLowerCase t"
  have cs: "r_creatures rm = [c]" and Pc: "?P c"
    using find_singleton [of "r_creatures rm" ?P c] assms(3) rid(2)
    by (auto simp: Room_getCreatureByName_def room_inv_def)
  show "r_creatures rm = [c]" by (rule cs)
  have cinv: "creature_inv c" using cs rid(2) by (simp add: room_inv_def)
  have td: "Creature_takeDamage (playerDamage r1) c = (True, c\<lparr>c_health := 0, c_isAlive := False\<rparr>)"
    using assms(5) by (simp add: Creature_takeDamage_def)
  show "snd (Player_attack r1 r2 t g)
          = setRoom (p_currentLocation (player g)) (rm\<lparr>r_creatures := []\<rparr>) g"
    using assms(2-4) cinv td cs Pc rid(1)
    by (simp add: Player_attack_def creature_inv_def Room_removeCreature_def)
qed

lemma Creature_takeDamage_inv:
  assumes "creature_inv c" "0 \<le> d"
  shows "0 \<le> c_health (snd (Creature_takeDamage d c))"
    and "c_health (snd (Creature_takeDamage d c)) \<le> c_maxHealth (snd (Creature_takeDamage d c))"
    and "c_isAlive (snd (Creature_takeDamage d c)) = (0 < c_health (snd (Creature_takeDamage d c)))"
    and "fst (Creature_takeDamage d c) = (c_health (snd (Creature_takeDamage d c)) = 0)"
  using assms by (auto simp: Creature_takeDamage_def creature_inv_def Let_def)

lemma reachable_in_forest: "reachable in_forest"
  unfolding in_forest_def by (intro reachable_step reachable_init) simp_all

lemma reachable_forest_fight: "reachable forest_fight"
  unfolding forest_fight_def by (intro reachable_step reachable_in_forest) simp_all

lemma parse_look: "parse_command ''look'' = (''look'', [])"
  by code_simp

lemma Room_getDescription_visited [simp]:
  "Room_getDescription (rm\<lparr>r_isVisited := b\<rparr>) = Room_getDescription rm"
  by (simp add: Room_getDescription_def Let_def)

lemma dispatch_look:
  "dispatch r1 r2 command ''look'' t g
     = (case getRoom g (p_currentLocation (player g)) of
          Some currentRoom \<Rightarrow> (Room_getDescription currentRoom, g)
        | None \<Rightarrow> (''You'' @ apos @ ''re in an unknown location.'', g))"
  by (simp add: dispatch_def)

lemma Player_move_into_room:
  assumes "getRoom g (p_currentLocation (player g)) = Some currentRoom"
    and "exits_get (r_exits currentRoom) (toLowerCase target) = Some (RoomId x)"
    and "getRoom g (RoomId x) = Some roomX"
  shows "Player_move target g
           = (Room_getDescription roomX,
              setRoom (RoomId x) (roomX\<lparr>r_isVisited := True\<rparr>)
                (g\<lparr>player := (player g)\<lparr>p_currentLocation := RoomId x\<rparr>\<rparr>))"
proof (cases "r_isVisited roomX")
  case True
  then have same: "roomX\<lparr>r_isVisited := True\<rparr> = roomX"
    by (cases roomX) simp
  show ?thesis using assms True by (simp add: Player_move_def Let_def same)
next
  case False
  then show ?thesis using assms by (simp add: Player_move_def Let_def)
qed

lemma parse_go_north: "parse_command ''go north'' = (''go'', ''north'')"
  by code_simp

lemma start_facts:
  "\<not> isGameOver initializeGame
   \<and> getRoom initializeGame (p_currentLocation (player initializeGame))
       = Some (the (getRoom initializeGame (RoomId ''crash_site'')))
   \<and> exits_get (r_exits (the (getRoom initializeGame (RoomId ''crash_site'')))) (toLowerCase ''north'')
       = Some (RoomId ''alien_forest'')
   \<and> getRoom initializeGame (RoomId ''alien_forest'')
       = Some (the (getRoom initializeGame (RoomId ''alien_forest'')))
   \<and> r_name (the (getRoom initializeGame (RoomId ''alien_forest''))) = ''Alien Forest''"
  by code_simp

lemma reachable_on_peak_equipped: "reachable on_peak_equipped"
  unfolding on_peak_equipped_def by (intro reachable_step reachable_init) simp_all

lemma reachable_rescued: "reachable rescued"
  unfolding rescued_def by (intro reachable_step reachable_on_peak_equipped) simp_all

lemma rescued_over: "isGameOver rescued"
  by code_simp

section \<open>The player's damage roll\<close>

text \<open>
  Claim C2. The claim: the damage the player deals is an integer in [5, 20], and every
  integer of the range, 20 included, can be rolled. The code computes
  \<open>Math.floor(Math.random() * 15) + 5\<close> under the comment "5-20 damage": for every value
  of \<open>Math.random()\<close>, which lies in [0, 1), the roll is between 5 and 19, and it is
  never 20.
\<close>

theorem playerDamage_below_20:
  "0 \<le> r \<Longrightarrow> r < 1 \<Longrightarrow> 5 \<le> playerDamage r \<and> playerDamage r \<le> 19 \<and> playerDamage r \<noteq> 20"
  using random_below_bounds [of r 15] by (simp add: playerDamage_def)

theorem playerDamage_below_20_witness:
  "(0::real) \<le> 14 / 15 \<and> (14 / 15 :: real) < 1 \<and> 5 \<le> playerDamage (14 / 15)
   \<and> playerDamage (14 / 15) \<le> 19 \<and> playerDamage (14 / 15) \<noteq> 20"
  using playerDamage_below_20 [of "14 / 15"] by simp

section \<open>The terminal state\<close>

text \<open>
  Claim C5. Once \<open>isGameOver\<close> is true, every command returns the fixed message and
  leaves the whole state as it is; so does every sequence of commands, and the flag
  stays true.
\<close>

theorem gameOver_is_terminal:
  "isGameOver g \<Longrightarrow>
     processCommand r1 r2 command g = (''The game is over. Refresh the page to play again.'', g)
     \<and> foldl (\<lambda>s (a, b, c). snd (processCommand a b c s)) g commands = g"
proof -
  assume over: "isGameOver g"
  have one: "\<And>a b c. processCommand a b c g
                 = (''The game is over. Refresh the page to play again.'', g)"
    using over by (simp add: processCommand_def)
  have "foldl (\<lambda>s (a, b, c). snd (processCommand a b c s)) g commands = g"
    by (induction commands) (simp_all add: one split: prod.splits)
  with one show ?thesis by simp
qed

theorem gameOver_is_terminal_witness:
  "reachable rescued \<and> isGameOver rescued
   \<and> processCommand 0 0 ''go north'' rescued
       = (''The game is over. Refresh the page to play again.'', rescued)
   \<and> foldl (\<lambda>s (a, b, c). snd (processCommand a b c s)) rescued
        [(0, 0, ''look''), (0, 0, ''use beacon'')] = rescued"
  using gameOver_is_terminal [OF rescued_over, of 0 0 "''go north''"
      "[(0, 0, ''look''), (0, 0, ''use beacon'')]"]
    reachable_rescued rescued_over
  by simp

section \<open>The exits of the world\<close>

text \<open>
  Claim C6. The claim: every exit of the world built at initialization has the matching
  reverse edge. In the world \<open>createRooms\<close> builds, exactly three exits have none:
  east from the research facility leads to the mountain peak, whose west exit leads to
  the alien forest; south from the mountain peak leads to the research facility, which
  has no north exit; north from the underground tunnels leads to the crystal caves,
  which have no south exit.
\<close>

theorem world_exits_without_reverse:
  "filter (\<lambda>(a, d). \<not> has_reverse_edge initializeGame a d) (all_exits initializeGame)
     = [(''research_facility'', ''east''), (''mountain_peak'', ''south''),
        (''underground_tunnels'', ''north'')]
   \<and> exit_of initializeGame ''research_facility'' ''east'' = Some ''mountain_peak''
   \<and> exit_of initializeGame ''mountain_peak'' ''west'' = Some ''alien_forest''
   \<and> exit_of initializeGame ''mountain_peak'' ''south'' = Some ''research_facility''
   \<and> exit_of initializeGame ''research_facility'' ''north'' = None
   \<and> exit_of initializeGame ''underground_tunnels'' ''north'' = Some ''crystal_caves''
   \<and> exit_of initializeGame ''crystal_caves'' ''south'' = None"
  by code_simp

section \<open>Winning\<close>

lemma isWin_checkGameConditions [simp]: "isWin (checkGameConditions g) = isWin g"
  by (simp add: checkGameConditions_def)

lemma isWin_setRoom_player [simp]: "isWin (setRoom loc rm g\<lparr>player := p\<rparr>) = isWin g"
  by simp

lemma isWin_move: "isWin (snd (Player_move t g)) = isWin g"
  by (simp add: Player_move_def Let_def split: option.splits)

lemma isWin_take_by_id: "isWin (snd (take_by_id i rm g)) = isWin g"
  by (simp add: take_by_id_def split: prod.splits option.splits)

lemma isWin_take: "isWin (snd (Player_take t g)) = isWin g"
  by (simp add: Player_take_def isWin_take_by_id split: option.splits)

lemma isWin_attack: "isWin (snd (Player_attack r1 r2 t g)) = isWin g"
  by (simp add: Player_attack_def Let_def case_prod_beta split: option.splits)

lemma Item_use_beacon:
  "i_use it = BeaconUse \<Longrightarrow> p_currentLocation (player g) = RoomId ''mountain_peak'' \<Longrightarrow>
   list_ex (\<lambda>i. i_id i = ''battery'') (p_inventory (player g)) \<Longrightarrow>
     Item_use it g = (victory_text, g\<lparr>isWin := True, isGameOver := True\<rparr>)"
  by (simp add: Item_use_def)

lemma Item_use_no_win:
  "\<not> (i_use it = BeaconUse \<and> p_currentLocation (player g) = RoomId ''mountain_peak''
      \<and> list_ex (\<lambda>i. i_id i = ''battery'') (p_inventory (player g))) \<Longrightarrow>
     isWin (snd (Item_use it g)) = isWin g"
  by (cases "i_use it") (auto simp: Item_use_def)

lemma world_item_beacon:
  "it \<in> set world_items \<Longrightarrow>
     (i_isUsable it \<and> i_use it = BeaconUse) = (i_id it = ''beacon'')"
  by (auto simp: world_items_def medkit_def energy_bar_def flashlight_def knife_def keycard_def
        battery_def beacon_def crystal_def datapad_def Item_def)

lemma inventory_find_world:
  "player_inv p \<Longrightarrow> inventory_find t p = Some it \<Longrightarrow> it \<in> set world_items"
  using find_SomeD [of _ "p_inventory p" it]
  by (auto simp: inventory_find_def player_inv_def)

text \<open>
  Claim C1. From a reachable state in which the win flag is not set, a command sets it
  if and only if it is a \<open>use\<close> command whose target resolves, in the inventory, to the
  beacon, while the player is on the mountain peak and an item with id \<open>battery\<close> is in
  the inventory; the game-over flag is then set too and the victory text is returned.
  No other command, and no use of the beacon elsewhere or without the battery, sets it.
\<close>

theorem win_iff_beacon_used:
  assumes "reachable g" and "\<not> isWin g"
  shows "isWin (snd (processCommand r1 r2 command g))
           = (\<exists>target it. parse_command command = (''use'', target) \<and> target \<noteq> []
                \<and> inventory_find target (player g) = Some it \<and> i_id it = ''beacon''
                \<and> p_currentLocation (player g) = RoomId ''mountain_peak''
                \<and> list_ex (\<lambda>i. i_id i = ''battery'') (p_inventory (player g)))
         \<and> (isWin (snd (processCommand r1 r2 command g))
              \<longrightarrow> isGameOver (snd (processCommand r1 r2 command g))
                  \<and> fst (processCommand r1 r2 command g) = victory_text)"
proof -
  let ?win = "\<lambda>target it. parse_command command = (''use'', target) \<and> target \<noteq> []
                \<and> inventory_find target (player g) = Some it \<and> i_id it = ''beacon''
                \<and> p_currentLocation (player g) = RoomId ''mountain_peak''
                \<and> list_ex (\<lambda>i. i_id i = ''battery'') (p_inventory (player g))"
  have inv: "invariant g" using assms(1) by (rule reachable_invariant)
  have pinv: "player_inv (player g)" using assms(1) by (rule reachable_player_inv)
  show ?thesis
  proof (cases "isGameOver g")
    case True
    then have "\<not> p_isAlive (player g)" using inv assms(2) by (auto simp: invariant_def pre_inv_def)
    then have "p_currentLocation (player g) \<noteq> RoomId ''mountain_peak''"
      using pinv by (simp add: player_inv_def)
    then show ?thesis using True assms(2) by (simp add: processCommand_def)
  next
    case False
    obtain a t where parse: "parse_command command = (a, t)" by (cases "parse_command command")
    note run = processCommand_running [OF False parse]
    show ?thesis
    proof (cases "a = ''use'' \<and> t \<noteq> []")
      case False
      then have "isWin (snd (dispatch r1 r2 command a t g)) = isWin g"
        by (auto simp: dispatch_def isWin_move isWin_take isWin_attack split: option.splits)
      then show ?thesis using False parse assms(2) by (auto simp: run)
    next
      case True
      then have d: "dispatch r1 r2 command a t g = Player_use t g"
        by (simp add: dispatch_use)
      show ?thesis
      proof (cases "inventory_find t (player g)")
        case None
        then show ?thesis using True parse assms(2) d by (simp add: run Player_use_def)
      next
        case (Some it)
        have w: "it \<in> set world_items" using pinv Some by (rule inventory_find_world)
        note b = world_item_beacon [OF w]
        show ?thesis
        proof (cases "i_id it = ''beacon'' \<and> p_currentLocation (player g) = RoomId ''mountain_peak''
                      \<and> list_ex (\<lambda>i. i_id i = ''battery'') (p_inventory (player g))")
          case True
          then have "Player_use t g = (victory_text, g\<lparr>isWin := True, isGameOver := True\<rparr>)"
            using Some b Item_use_beacon [of it g] by (simp add: Player_use_def)
          then show ?thesis using \<open>a = ''use'' \<and> t \<noteq> []\<close> parse d Some True
            by (simp add: run checkGameConditions_def)
        next
          case False
          then have "isWin (snd (Player_use t g)) = isWin g"
            using Some b Item_use_no_win [of it g] by (auto simp: Player_use_def)
          then show ?thesis using \<open>a = ''use'' \<and> t \<noteq> []\<close> parse d Some False assms(2)
            by (auto simp: run)
        qed
      qed
    qed
  qed
qed

lemma on_peak_equipped_facts:
  "\<not> isWin on_peak_equipped
   \<and> parse_command ''use beacon'' = (''use'', ''beacon'') \<and> ''beacon'' \<noteq> []
   \<and> inventory_find ''beacon'' (player on_peak_equipped) = Some beacon \<and> i_id beacon = ''beacon''
   \<and> p_currentLocation (player on_peak_equipped) = RoomId ''mountain_peak''
   \<and> list_ex (\<lambda>i. i_id i = ''battery'') (p_inventory (player on_peak_equipped))"
  by code_simp

theorem win_iff_beacon_used_witness:
  "reachable on_peak_equipped \<and> \<not> isWin on_peak_equipped
   \<and> inventory_find ''beacon'' (player on_peak_equipped) = Some beacon
   \<and> p_currentLocation (player on_peak_equipped) = RoomId ''mountain_peak''
   \<and> list_ex (\<lambda>i. i_id i = ''battery'') (p_inventory (player on_peak_equipped))
   \<and> isWin (snd (processCommand 0 0 ''use beacon'' on_peak_equipped))
   \<and> isGameOver (snd (processCommand 0 0 ''use beacon'' on_peak_equipped))
   \<and> fst (processCommand 0 0 ''use beacon'' on_peak_equipped) = victory_text"
proof -
  from on_peak_equipped_facts have nowin: "\<not> isWin on_peak_equipped" by blast
  from win_iff_beacon_used [OF reachable_on_peak_equipped nowin, of 0 0 "''use beacon''"]
    on_peak_equipped_facts reachable_on_peak_equipped
  show ?thesis by blast
qed

section \<open>The player's health\<close>

lemma parse_use_medkit: "parse_command ''use medkit'' = (''use'', ''medkit'')"
  by code_simp

lemma medkit_usable: "i_isUsable medkit \<and> i_use medkit = MedkitUse"
  by (simp add: medkit_def Item_def)

lemma reachable_hurt_with_medkit: "reachable hurt_with_medkit"
  unfolding hurt_with_medkit_def by (intro reachable_step reachable_in_forest) simp_all

lemma hurt_with_medkit_facts:
  "\<not> isGameOver hurt_with_medkit \<and> p_health (player hurt_with_medkit) = 90
   \<and> inventory_find ''medkit'' (player hurt_with_medkit) = Some medkit"
  by code_simp

text \<open>
  Claim C3. In every reachable state the player's health is an integer between 0 and
  \<open>maxHealth\<close>, and the alive flag is true exactly when the health is positive (so
  health 0 and a false flag go together). Healing never exceeds \<open>maxHealth\<close>; using
  the medkit at health 90 of 100 gives exactly 100.
\<close>

theorem player_health_invariant:
  "reachable g \<Longrightarrow>
     0 \<le> p_health (player g) \<and> p_health (player g) \<le> p_maxHealth (player g)
     \<and> p_isAlive (player g) = (0 < p_health (player g))
     \<and> (p_health (player g) = 0) = (\<not> p_isAlive (player g))
     \<and> p_health (heal k (player g)) \<le> p_maxHealth (player g)
     \<and> (\<not> isGameOver g \<and> p_health (player g) = 90
          \<and> inventory_find ''medkit'' (player g) = Some medkit
         \<longrightarrow> p_health (player (snd (processCommand r1 r2 ''use medkit'' g))) = 100
             \<and> p_maxHealth (player (snd (processCommand r1 r2 ''use medkit'' g))) = 100)"
proof -
  assume r: "reachable g"
  have pinv: "player_inv (player g)" using r by (rule reachable_player_inv)
  have a: "0 \<le> p_health (player g) \<and> p_health (player g) \<le> p_maxHealth (player g)
           \<and> p_isAlive (player g) = (0 < p_health (player g))
           \<and> (p_health (player g) = 0) = (\<not> p_isAlive (player g))"
    using pinv by (auto simp: player_inv_def)
  have b: "p_health (heal k (player g)) \<le> p_maxHealth (player g)"
    by (simp add: heal_def)
  have c: "p_health (player (snd (processCommand r1 r2 ''use medkit'' g))) = 100
           \<and> p_maxHealth (player (snd (processCommand r1 r2 ''use medkit'' g))) = 100"
    if "\<not> isGameOver g" "p_health (player g) = 90"
       "inventory_find ''medkit'' (player g) = Some medkit"
    using that pinv medkit_usable
    by (simp add: processCommand_def parse_use_medkit dispatch_def Player_use_def Item_use_def
          heal_def player_inv_def)
  from a b c show ?thesis by blast
qed

theorem player_health_invariant_witness:
  "reachable hurt_with_medkit \<and> \<not> isGameOver hurt_with_medkit
   \<and> p_health (player hurt_with_medkit) = 90
   \<and> inventory_find ''medkit'' (player hurt_with_medkit) = Some medkit
   \<and> p_health (player (snd (processCommand 0 0 ''use medkit'' hurt_with_medkit))) = 100"
  using player_health_invariant [OF reachable_hurt_with_medkit, of 50 0 0]
    reachable_hurt_with_medkit hurt_with_medkit_facts
  by simp

section \<open>The creatures' health\<close>

text \<open>
  Claim C4. In every reachable state every creature in a room is alive with its health
  in (0, \<open>maxHealth\<close>], and \<open>Creature.takeDamage\<close>, the one mutation of a creature,
  leaves the health in [0, \<open>maxHealth\<close>] with the alive flag equal to (health > 0),
  reporting death exactly at health 0. An attack command whose roll brings the health of
  the creature it resolves to 0 removes the creature from the room, so that no dead
  creature is in any room.
\<close>

theorem creature_health_invariant:
  "reachable g \<Longrightarrow>
     (\<forall>rid rm c. (rid, rm) \<in> set (rooms g) \<and> c \<in> set (r_creatures rm) \<longrightarrow>
        c_isAlive c \<and> 0 < c_health c \<and> c_health c \<le> c_maxHealth c
        \<and> (\<forall>d. 0 \<le> d \<longrightarrow>
              0 \<le> c_health (snd (Creature_takeDamage d c))
              \<and> c_health (snd (Creature_takeDamage d c)) \<le> c_maxHealth (snd (Creature_takeDamage d c))
              \<and> c_isAlive (snd (Creature_takeDamage d c)) = (0 < c_health (snd (Creature_takeDamage d c)))
              \<and> fst (Creature_takeDamage d c) = (c_health (snd (Creature_takeDamage d c)) = 0)))
     \<and> (\<not> isGameOver g \<and> parse_command command = (action, target)
          \<and> action \<in> set [''attack'', ''fight'', ''hit''] \<and> target \<noteq> []
          \<and> getRoom g (p_currentLocation (player g)) = Some currentRoom
          \<and> Room_getCreatureByName target currentRoom = Some creature
          \<and> c_isHostile creature \<and> c_health creature \<le> playerDamage r1
         \<longrightarrow> (\<exists>room1. getRoom (snd (processCommand r1 r2 command g)) (p_currentLocation (player g))
                        = Some room1
                      \<and> r_creatures room1 = remove1 creature (r_creatures currentRoom)
                      \<and> creature \<notin> set (r_creatures room1)))"
proof -
  assume r: "reachable g"
  have rinv: "list_all room_inv (rooms g)" using r by (rule reachable_rooms_inv)
  have a: "c_isAlive c \<and> 0 < c_health c \<and> c_health c \<le> c_maxHealth c
        \<and> (\<forall>d. 0 \<le> d \<longrightarrow>
              0 \<le> c_health (snd (Creature_takeDamage d c))
              \<and> c_health (snd (Creature_takeDamage d c)) \<le> c_maxHealth (snd (Creature_takeDamage d c))
              \<and> c_isAlive (snd (Creature_takeDamage d c)) = (0 < c_health (snd (Creature_takeDamage d c)))
              \<and> fst (Creature_takeDamage d c) = (c_health (snd (Creature_takeDamage d c)) = 0))"
    if "(rid, rm) \<in> set (rooms g)" "c \<in> set (r_creatures rm)" for rid rm c
  proof -
    have "room_inv (rid, rm)" using rinv that(1) by (auto simp: list_all_iff)
    then have ci: "creature_inv c" using that(2) by (auto simp: room_inv_def list_all_iff)
    then show ?thesis using Creature_takeDamage_inv [OF ci] by (simp add: creature_inv_def)
  qed
  have b: "\<exists>room1. getRoom (snd (processCommand r1 r2 command g)) (p_currentLocation (player g))
                        = Some room1
                      \<and> r_creatures room1 = remove1 creature (r_creatures currentRoom)
                      \<and> creature \<notin> set (r_creatures room1)"
    if h: "\<not> isGameOver g" "parse_command command = (action, target)"
      "action \<in> set [''attack'', ''fight'', ''hit'']" "target \<noteq> []"
      "getRoom g (p_currentLocation (player g)) = Some currentRoom"
      "Room_getCreatureByName target currentRoom = Some creature"
      "c_isHostile creature" "c_health creature \<le> playerDamage r1"
  proof -
    obtain rid where rid: "p_currentLocation (player g) = RoomId rid"
      using getRoom_inv rinv h(5) by blast
    have k: "r_creatures currentRoom = [creature]"
      "snd (Player_attack r1 r2 target g)
         = setRoom (p_currentLocation (player g)) (currentRoom\<lparr>r_creatures := []\<rparr>) g"
      using Player_attack_kill [OF rinv h(5,6,7,8)] by simp_all
    have "getRoom (snd (processCommand r1 r2 command g)) (p_currentLocation (player g))
            = Some (currentRoom\<lparr>r_creatures := []\<rparr>)"
      using h(1-4) k(2) rid by (simp add: processCommand_running dispatch_attack)
    then show ?thesis using k(1) by simp
  qed
  from a b show ?thesis by blast
qed

lemma parse_attack_xenomorph: "parse_command ''attack xenomorph'' = (''attack'', ''xenomorph'')"
  by code_simp

lemma forest_fight_facts:
  "\<not> isGameOver forest_fight
   \<and> p_currentLocation (player forest_fight) = RoomId ''alien_forest''
   \<and> getRoom forest_fight (RoomId ''alien_forest'')
       = Some (the (getRoom forest_fight (RoomId ''alien_forest'')))
   \<and> r_creatures (the (getRoom forest_fight (RoomId ''alien_forest''))) = [xenomorph\<lparr>c_health := 12\<rparr>]
   \<and> Room_getCreatureByName ''xenomorph'' (the (getRoom forest_fight (RoomId ''alien_forest'')))
       = Some (xenomorph\<lparr>c_health := 12\<rparr>)
   \<and> c_isHostile (xenomorph\<lparr>c_health := 12\<rparr>)
   \<and> playerDamage (14 / 15) = 19"
  by code_simp

theorem creature_health_invariant_witness:
  "reachable forest_fight \<and> \<not> isGameOver forest_fight
   \<and> parse_command ''attack xenomorph'' = (''attack'', ''xenomorph'')
   \<and> r_creatures (the (getRoom forest_fight (RoomId ''alien_forest''))) = [xenomorph\<lparr>c_health := 12\<rparr>]
   \<and> playerDamage (14 / 15) = 19
   \<and> (\<exists>room1. getRoom (snd (processCommand (14 / 15) 0 ''attack xenomorph'' forest_fight))
                  (RoomId ''alien_forest'') = Some room1
               \<and> r_creatures room1 = [])"
  using creature_health_invariant [OF reachable_forest_fight, of "''attack xenomorph''" "''attack''"
      "''xenomorph''" "the (getRoom forest_fight (RoomId ''alien_forest''))"
      "xenomorph\<lparr>c_health := 12\<rparr>" "14 / 15" 0]
    reachable_forest_fight forest_fight_facts parse_attack_xenomorph
  by (simp del: remove1.simps) (auto)

section \<open>Looking after moving\<close>

text \<open>
  Claim C7. In a reachable state of a running game, a move command (\<open>go\<close>, \<open>move\<close> or
  \<open>walk\<close> with a direction) whose direction is an exit of the current room to a room
  \<open>x\<close> of the registry puts the player in \<open>x\<close> and returns the description of \<open>x\<close>;
  a \<open>look\<close> command issued next returns exactly the same text and changes nothing.
\<close>

theorem look_after_move:
  assumes "reachable g" and "\<not> isGameOver g"
    and "parse_command command = (action, target)"
    and "action \<in> set [''go'', ''move'', ''walk'']" and "target \<noteq> []"
    and "getRoom g (p_currentLocation (player g)) = Some currentRoom"
    and "exits_get (r_exits currentRoom) (toLowerCase target) = Some (RoomId x)"
    and "getRoom g (RoomId x) = Some roomX"
  shows "p_currentLocation (player (snd (processCommand r1 r2 command g))) = RoomId x
         \<and> fst (processCommand r1 r2 command g) = Room_getDescription roomX
         \<and> processCommand r3 r4 ''look'' (snd (processCommand r1 r2 command g))
             = (fst (processCommand r1 r2 command g), snd (processCommand r1 r2 command g))"
proof -
  let ?g1 = "setRoom (RoomId x) (roomX\<lparr>r_isVisited := True\<rparr>)
               (g\<lparr>player := (player g)\<lparr>p_currentLocation := RoomId x\<rparr>\<rparr>)"
  have alive: "p_isAlive (player g)" using assms(1,2) by (rule reachable_alive)
  have mv: "Player_move target g = (Room_getDescription roomX, ?g1)"
    using assms(6-8) by (rule Player_move_into_room)
  have alive1: "p_isAlive (player ?g1)" using alive by simp
  have step: "processCommand r1 r2 command g = (Room_getDescription roomX, ?g1)"
    using assms(2-5) mv checkGameConditions_alive [OF alive1]
    by (simp add: processCommand_running dispatch_move)
  have over1: "\<not> isGameOver ?g1" using assms(2) by simp
  have "processCommand r3 r4 ''look'' ?g1 = (Room_getDescription roomX, ?g1)"
    using over1 checkGameConditions_alive [OF alive1]
    by (simp add: processCommand_running [OF over1 parse_look] dispatch_look)
  with step show ?thesis by simp
qed

theorem look_after_move_witness:
  "reachable initializeGame \<and> \<not> isGameOver initializeGame
   \<and> parse_command ''go north'' = (''go'', ''north'')
   \<and> r_name (the (getRoom initializeGame (RoomId ''alien_forest''))) = ''Alien Forest''
   \<and> p_currentLocation (player (snd (processCommand 0 0 ''go north'' initializeGame)))
       = RoomId ''alien_forest''
   \<and> fst (processCommand 0 0 ''go north'' initializeGame)
       = Room_getDescription (the (getRoom initializeGame (RoomId ''alien_forest'')))
   \<and> processCommand 0 0 ''look'' (snd (processCommand 0 0 ''go north'' initializeGame))
       = (fst (processCommand 0 0 ''go north'' initializeGame),
          snd (processCommand 0 0 ''go north'' initializeGame))"
proof -
  have verb: "''go'' \<in> set [''go'', ''move'', ''walk'']" and arg: "''north'' \<noteq> []"
    by simp_all
  from start_facts have over: "\<not> isGameOver initializeGame"
    and here: "getRoom initializeGame (p_currentLocation (player initializeGame))
                 = Some (the (getRoom initializeGame (RoomId ''crash_site'')))"
    and exit: "exits_get (r_exits (the (getRoom initializeGame (RoomId ''crash_site''))))
                 (toLowerCase ''north'') = Some (RoomId ''alien_forest'')"
    and there: "getRoom initializeGame (RoomId ''alien_forest'')
                  = Some (the (getRoom initializeGame (RoomId ''alien_forest'')))"
    and name: "r_name (the (getRoom initializeGame (RoomId ''alien_forest''))) = ''Alien Forest''"
    by blast+
  from look_after_move [OF reachable_init over parse_go_north verb arg here exit there, of 0 0 0 0]
    reachable_init over parse_go_north name
  show ?thesis by blast
qed

section \<open>Taking an item\<close>

text \<open>
  No command but \<open>take\<close> changes what the rooms and the inventory hold of items, and
  \<open>take\<close> moves one item from the current room to the inventory; so the inventory never
  holds an item twice, nor one that is still in a room.
\<close>

lemma getRoom_setRoom_other:
  "getRoom (setRoom (RoomId k) v g) (RoomId rid) = (if rid = k then Some v else getRoom g (RoomId rid))"
  by (simp add: getRoom_def setRoom_def update_conv')

lemma items_view_setRoom:
  assumes "getRoom g loc = Some old" and "r_items new = r_items old"
  shows "items_view (setRoom loc new g) = items_view g"
proof (cases loc)
  case (RoomId k)
  have "map_option r_items (getRoom (setRoom (RoomId k) new g) (RoomId rid))
          = map_option r_items (getRoom g (RoomId rid))" for rid
    using assms RoomId by (simp add: getRoom_setRoom_other)
  then show ?thesis using RoomId by (simp add: items_view_def)
next
  case (Inherited k)
  then show ?thesis by (simp add: setRoom_def)
qed

lemma items_view_player:
  "p_inventory p = p_inventory (player g) \<Longrightarrow> items_view (g\<lparr>player := p\<rparr>) = items_view g"
  by (simp add: items_view_def)

lemma items_view_flags [simp]:
  "items_view (g\<lparr>isWin := a, isGameOver := b\<rparr>) = items_view g"
  "items_view (checkGameConditions g) = items_view g"
  by (simp_all add: items_view_def getRoom_def checkGameConditions_def)

lemma inventory_apart_view:
  assumes "items_view g1 = items_view g"
  shows "inventory_apart g1 = inventory_apart g"
proof -
  have *: "inventory_apart h
             = (distinct (fst (items_view h))
                \<and> (\<forall>rid xs. snd (items_view h) rid = Some xs \<longrightarrow> set xs \<inter> set (fst (items_view h)) = {}))"
    for h
    by (auto simp: inventory_apart_def items_view_def)
  show ?thesis by (simp add: * assms)
qed

lemma items_view_move: "items_view (snd (Player_move t g)) = items_view g"
proof (cases "getRoom g (p_currentLocation (player g))")
  case None
  then show ?thesis by (simp add: Player_move_def)
next
  case (Some currentRoom)
  note here = this
  show ?thesis
  proof (cases "exits_get (r_exits currentRoom) (toLowerCase t)")
    case None
    then show ?thesis using here by (simp add: Player_move_def)
  next
    case (Some nx)
    let ?g1 = "g\<lparr>player := (player g)\<lparr>p_currentLocation := nx\<rparr>\<rparr>"
    have v1: "items_view ?g1 = items_view g" by (simp add: items_view_player)
    show ?thesis
    proof (cases "getRoom g nx")
      case None
      then show ?thesis using here Some v1 by (simp add: Player_move_def Let_def)
    next
      case (Some nextRoom)
      then have "getRoom ?g1 nx = Some nextRoom" by simp
      from items_view_setRoom [OF this]
      have "items_view (setRoom nx (nextRoom\<lparr>r_isVisited := True\<rparr>) ?g1) = items_view ?g1"
        and "items_view (setRoom nx nextRoom ?g1) = items_view ?g1"
        by simp_all
      then show ?thesis using here \<open>exits_get _ _ = Some nx\<close> Some v1
        by (simp add: Player_move_def Let_def)
    qed
  qed
qed

lemma r_items_removeCreature [simp]: "r_items (snd (Room_removeCreature i rm)) = r_items rm"
  by (simp add: Room_removeCreature_def split: option.splits)

lemma p_inventory_Creature_attack [simp]:
  "p_inventory (snd (Creature_attack r c p)) = p_inventory p"
  by (simp add: Creature_attack_def Player_takeDamage_def Let_def)

lemma items_view_attack: "items_view (snd (Player_attack r1 r2 t g)) = items_view g"
proof (cases "getRoom g (p_currentLocation (player g))")
  case None
  then show ?thesis by (simp add: Player_attack_def)
next
  case (Some currentRoom)
  have a: "items_view (setRoom (p_currentLocation (player g)) new g) = items_view g"
    if "r_items new = r_items currentRoom" for new
    using items_view_setRoom [OF Some that] .
  have b: "items_view ((setRoom (p_currentLocation (player g)) new g)\<lparr>player := p\<rparr>) = items_view g"
    if "r_items new = r_items currentRoom" "p_inventory p = p_inventory (player g)" for new p
    using a [OF that(1)] that(2) items_view_player [of p "setRoom (p_currentLocation (player g)) new g"]
    by simp
  show ?thesis using Some a b
    by (simp add: Player_attack_def Let_def case_prod_beta split: option.splits)
qed

lemma items_view_use: "items_view (snd (Player_use t g)) = items_view g"
proof -
  have "items_view (snd (Item_use it g)) = items_view g" for it
    by (cases "i_use it") (simp_all add: Item_use_def items_view_player heal_def)
  then show ?thesis by (simp add: Player_use_def split: option.splits)
qed

lemma remove_first_find: "find P xs = Some t \<Longrightarrow> remove_first P xs = remove1 t xs"
  by (induction xs) (auto split: if_splits dest: find_SomeD)

lemma apart_take_by_id:
  assumes "list_all room_inv (rooms g)" and "inventory_apart g"
    and "getRoom g (p_currentLocation (player g)) = Some currentRoom"
  shows "inventory_apart (snd (take_by_id itemId currentRoom g))"
proof (cases "find (\<lambda>i. i_id i = itemId) (r_items currentRoom)")
  case None
  then show ?thesis using assms(2) by (simp add: take_by_id_def Room_removeItem_def)
next
  case (Some t)
  obtain rid where rid: "p_currentLocation (player g) = RoomId rid" "room_inv (rid, currentRoom)"
    using getRoom_inv assms(1,3) by blast
  let ?xs = "r_items currentRoom"
  let ?room1 = "currentRoom\<lparr>r_items := remove1 t ?xs\<rparr>"
  let ?g1 = "(setRoom (RoomId rid) ?room1 g)
               \<lparr>player := (player g)\<lparr>p_inventory := p_inventory (player g) @ [t]\<rparr>\<rparr>"
  have g1: "snd (take_by_id itemId currentRoom g) = ?g1"
    using Some rid(1) by (simp add: take_by_id_def Room_removeItem_def remove_first_find)
  have t_in: "t \<in> set ?xs" using find_SomeD [OF Some] by simp
  have dist: "distinct ?xs" and home: "\<forall>i\<in>set ?xs. item_home i = Some rid"
    using rid(2) by (auto simp: room_inv_def list_all_iff)
  have here: "getRoom g (RoomId rid) = Some currentRoom" using assms(3) rid(1) by simp
  have t_new: "t \<notin> set (p_inventory (player g))"
    using assms(2) here t_in by (auto simp: inventory_apart_def)
  have "set (r_items rm) \<inter> set (p_inventory (player g) @ [t]) = {}"
    if look: "getRoom ?g1 (RoomId k) = Some rm" for k rm
  proof (cases "k = rid")
    case True
    then have "rm = ?room1" using look by (simp add: getRoom_setRoom_other)
    moreover have "set ?xs \<inter> set (p_inventory (player g)) = {}"
      using assms(2) here by (simp add: inventory_apart_def)
    ultimately show ?thesis using dist by auto
  next
    case False
    then have old: "getRoom g (RoomId k) = Some rm" using look by (simp add: getRoom_setRoom_other)
    then obtain k1 where "RoomId k = RoomId k1" "room_inv (k1, rm)"
      using getRoom_inv [OF assms(1)] by blast
    then have "\<forall>i\<in>set (r_items rm). item_home i = Some k"
      by (auto simp: room_inv_def list_all_iff)
    then have "t \<notin> set (r_items rm)" using home t_in False by auto
    moreover have "set (r_items rm) \<inter> set (p_inventory (player g)) = {}"
      using assms(2) old by (simp add: inventory_apart_def)
    ultimately show ?thesis by auto
  qed
  moreover have "distinct (p_inventory (player g) @ [t])"
    using assms(2) t_new by (simp add: inventory_apart_def)
  ultimately have "inventory_apart ?g1" by (simp add: inventory_apart_def)
  then show ?thesis by (simp add: g1)
qed

lemma apart_take:
  assumes "list_all room_inv (rooms g)" and "inventory_apart g"
  shows "inventory_apart (snd (Player_take t g))"
proof (cases "getRoom g (p_currentLocation (player g))")
  case None
  then show ?thesis using assms(2) by (simp add: Player_take_def)
next
  case (Some currentRoom)
  note a = apart_take_by_id [OF assms Some]
  show ?thesis using Some assms(2)
    by (simp add: Player_take_def a split: option.splits)
qed

lemma apart_dispatch:
  assumes "list_all room_inv (rooms g)" and "inventory_apart g"
  shows "inventory_apart (snd (dispatch r1 r2 command a t g))"
proof -
  note mv = inventory_apart_view [OF items_view_move]
  note at = inventory_apart_view [OF items_view_attack]
  note us = inventory_apart_view [OF items_view_use]
  note tk = apart_take [OF assms]
  show ?thesis
    unfolding dispatch_def using assms(2)
    by (simp add: mv at us tk split: option.splits)
qed

lemma apart_processCommand:
  assumes "list_all room_inv (rooms g)" and "inventory_apart g"
  shows "inventory_apart (snd (processCommand r1 r2 command g))"
proof (cases "isGameOver g")
  case True
  then show ?thesis using assms(2) by (simp add: processCommand_def)
next
  case False
  obtain a t where parse: "parse_command command = (a, t)" by (cases "parse_command command")
  have v: "items_view (checkGameConditions (snd (dispatch r1 r2 command a t g)))
             = items_view (snd (dispatch r1 r2 command a t g))"
    by simp
  show ?thesis
    using apart_dispatch [OF assms, of r1 r2 command a t]
    by (simp add: processCommand_running [OF False parse] inventory_apart_view [OF v])
qed

lemma apart_init: "inventory_apart initializeGame"
proof -
  have "p_inventory (player initializeGame) = []" by code_simp
  then show ?thesis by (simp add: inventory_apart_def)
qed

lemma reachable_apart: "reachable g \<Longrightarrow> inventory_apart g"
proof (induction rule: reachable.induct)
  case reachable_init
  show ?case by (rule apart_init)
next
  case (reachable_step g r1 r2 command)
  then show ?case using apart_processCommand reachable_rooms_inv by blast
qed

lemma world_items_unique:
  "list_all (\<lambda>i. list_all (\<lambda>j. (i_id j = i_id i \<or> toLowerCase (i_name j) = toLowerCase (i_id i))
                                  \<longrightarrow> j = i) world_items) world_items"
  by code_simp

lemma world_items_take_command:
  "list_all (\<lambda>i. parse_command (''take '' @ i_id i) = (''take'', i_id i) \<and> i_id i \<noteq> []) world_items"
  by code_simp

lemma find_unique:
  "x \<in> set xs \<Longrightarrow> P x \<Longrightarrow> (\<forall>y\<in>set xs. P y \<longrightarrow> y = x) \<Longrightarrow> find P xs = Some x"
proof (induction xs)
  case Nil
  then show ?case by simp
next
  case (Cons a xs)
  show ?case
  proof (cases "P a")
    case True
    then have "a = x" using Cons.prems(3) by simp
    then show ?thesis using True by simp
  next
    case False
    then have mem: "x \<in> set xs" using Cons.prems(1,2) by auto
    have rest: "\<forall>y\<in>set xs. P y \<longrightarrow> y = x" using Cons.prems(3) by (meson list.set_intros(2))
    have "find P xs = Some x" by (rule Cons.IH [OF mem Cons.prems(2) rest])
    then show ?thesis using False by simp
  qed
qed

lemma getRoom_setRoom_loc:
  "getRoom g loc = Some old \<Longrightarrow> getRoom (setRoom loc new g) loc = Some new"
  by (cases loc) (simp_all add: getRoom_def setRoom_def update_conv')

text \<open>
  Claim C8. In a reachable state of a running game, for every item of the current room
  the command \<open>take <item id>\<close> returns the confirmation, removes the item from the
  room's items and appends it to the inventory, which did not hold it; nothing else
  changes. The same command issued next finds nothing, returns the not-found message and
  leaves the state, room and inventory included, as it is.
\<close>

theorem take_moves_item_once:
  assumes "reachable g" and "\<not> isGameOver g"
    and "getRoom g (p_currentLocation (player g)) = Some currentRoom"
    and "it \<in> set (r_items currentRoom)"
  shows "processCommand r1 r2 (''take '' @ i_id it) g
           = (''You take the '' @ i_name it @ ''.'',
              (setRoom (p_currentLocation (player g))
                 (currentRoom\<lparr>r_items := remove1 it (r_items currentRoom)\<rparr>) g)
              \<lparr>player := (player g)\<lparr>p_inventory := p_inventory (player g) @ [it]\<rparr>\<rparr>)
         \<and> it \<notin> set (remove1 it (r_items currentRoom))
         \<and> it \<notin> set (p_inventory (player g))
         \<and> processCommand r3 r4 (''take '' @ i_id it) (snd (processCommand r1 r2 (''take '' @ i_id it) g))
             = (''There is no '' @ i_id it @ '' here.'',
                snd (processCommand r1 r2 (''take '' @ i_id it) g))"
proof -
  define c where "c = ''take '' @ i_id it"
  define taken where "taken = ''You take the '' @ i_name it @ ''.''"
  define missing where "missing = ''There is no '' @ i_id it @ '' here.''"
  let ?xs = "r_items currentRoom"
  let ?loc = "p_currentLocation (player g)"
  let ?room1 = "currentRoom\<lparr>r_items := remove1 it ?xs\<rparr>"
  let ?g1 = "(setRoom ?loc ?room1 g)\<lparr>player := (player g)\<lparr>p_inventory := p_inventory (player g) @ [it]\<rparr>\<rparr>"
  let ?byId = "\<lambda>i. i_id i = i_id it"
  let ?byName = "\<lambda>i. toLowerCase (i_name i) = toLowerCase (i_id it)"
  have rinv: "list_all room_inv (rooms g)" using assms(1) by (rule reachable_rooms_inv)
  have alive: "p_isAlive (player g)" using assms(1,2) by (rule reachable_alive)
  obtain rid where rid: "?loc = RoomId rid" "room_inv (rid, currentRoom)"
    using getRoom_inv rinv assms(3) by blast
  have dist: "distinct ?xs" and world: "set ?xs \<subseteq> set world_items"
    using rid(2) by (simp_all add: room_inv_def)
  have itw: "it \<in> set world_items" using world assms(4) by blast
  have "parse_command (''take '' @ i_id it) = (''take'', i_id it) \<and> i_id it \<noteq> []"
    using world_items_take_command itw unfolding list_all_iff by blast
  then have parse: "parse_command c = (''take'', i_id it)" and ne: "i_id it \<noteq> []"
    by (simp_all add: c_def)
  have uniq: "j = it" if j: "j \<in> set ?xs" and m: "?byId j \<or> ?byName j" for j
  proof -
    have "j \<in> set world_items" using world j by blast
    then show ?thesis using world_items_unique itw m unfolding list_all_iff by blast
  qed
  have first: "find ?byId ?xs = Some it"
    using find_unique [of it ?xs ?byId] assms(4) uniq by blast
  have tk: "take_by_id (i_id it) currentRoom g = (taken, ?g1)"
    using first by (simp add: take_by_id_def Room_removeItem_def remove_first_find taken_def)
  have pt: "Player_take (i_id it) g = (taken, ?g1)"
    using assms(3) first tk by (simp add: Player_take_def Room_getItem_def)
  have alive1: "p_isAlive (player ?g1)" using alive by simp
  have verb: "''take'' \<in> set [''take'', ''get'']" by simp
  have step: "processCommand r1 r2 c g = (taken, ?g1)"
    unfolding processCommand_running [OF assms(2) parse] dispatch_take [OF verb ne] pt
    using checkGameConditions_alive [OF alive1] by simp
  have gone: "it \<notin> set (remove1 it ?xs)" using dist by simp
  have apart: "inventory_apart g" using assms(1) by (rule reachable_apart)
  have "getRoom g (RoomId rid) = Some currentRoom" using assms(3) rid(1) by simp
  then have "set ?xs \<inter> set (p_inventory (player g)) = {}"
    using apart unfolding inventory_apart_def by blast
  then have fresh: "it \<notin> set (p_inventory (player g))" using assms(4) by blast
  have over1: "\<not> isGameOver ?g1" using assms(2) by simp
  have here1: "getRoom ?g1 (p_currentLocation (player ?g1)) = Some ?room1"
    using getRoom_setRoom_loc [OF assms(3)] by simp
  have rest: "j \<in> set ?xs \<and> j \<noteq> it" if "j \<in> set (remove1 it ?xs)" for j
    using that dist by auto
  have none1: "find ?byId (remove1 it ?xs) = None"
    unfolding find_None_iff using rest uniq by blast
  have none2: "find ?byName (remove1 it ?xs) = None"
    unfolding find_None_iff using rest uniq by blast
  have pt2: "Player_take (i_id it) ?g1 = (missing, ?g1)"
    using here1 none1 none2 by (simp add: Player_take_def Room_getItem_def missing_def)
  have again: "processCommand r3 r4 c ?g1 = (missing, ?g1)"
    unfolding processCommand_running [OF over1 parse] dispatch_take [OF verb ne] pt2
    using checkGameConditions_alive [OF alive1] by simp
  have "processCommand r1 r2 c g = (taken, ?g1) \<and> it \<notin> set (remove1 it ?xs)
        \<and> it \<notin> set (p_inventory (player g))
        \<and> processCommand r3 r4 c (snd (processCommand r1 r2 c g))
            = (missing, snd (processCommand r1 r2 c g))"
    using step gone fresh again by simp
  then show ?thesis unfolding c_def taken_def missing_def .
qed

lemma flashlight_facts:
  "flashlight \<in> set (r_items (the (getRoom initializeGame (RoomId ''crash_site''))))
   \<and> i_id flashlight = ''flashlight'' \<and> i_name flashlight = ''Flashlight''"
  by code_simp

theorem take_moves_item_once_witness:
  "reachable initializeGame \<and> \<not> isGameOver initializeGame
   \<and> flashlight \<in> set (r_items (the (getRoom initializeGame (RoomId ''crash_site''))))
   \<and> i_id flashlight = ''flashlight'' \<and> i_name flashlight = ''Flashlight''
   \<and> processCommand 0 0 (''take '' @ i_id flashlight) initializeGame
       = (''You take the '' @ i_name flashlight @ ''.'',
          (setRoom (p_currentLocation (player initializeGame))
             ((the (getRoom initializeGame (RoomId ''crash_site'')))
                \<lparr>r_items := remove1 flashlight
                    (r_items (the (getRoom initializeGame (RoomId ''crash_site''))))\<rparr>)
             initializeGame)
          \<lparr>player := (player initializeGame)
             \<lparr>p_inventory := p_inventory (player initializeGame) @ [flashlight]\<rparr>\<rparr>)
   \<and> flashlight \<notin> set (p_inventory (player initializeGame))
   \<and> processCommand 0 0 (''take '' @ i_id flashlight)
        (snd (processCommand 0 0 (''take '' @ i_id flashlight) initializeGame))
       = (''There is no '' @ i_id flashlight @ '' here.'',
          snd (processCommand 0 0 (''take '' @ i_id flashlight) initializeGame))"
proof -
  from start_facts have over: "\<not> isGameOver initializeGame"
    and here: "getRoom initializeGame (p_currentLocation (player initializeGame))
                 = Some (the (getRoom initializeGame (RoomId ''crash_site'')))"
    by blast+
  from flashlight_facts
  have there: "flashlight \<in> set (r_items (the (getRoom initializeGame (RoomId ''crash_site''))))"
    by blast
  note t = take_moves_item_once [OF reachable_init over here there, of 0 0 0 0]
  show ?thesis using t reachable_init over flashlight_facts by blast
qed

section \<open>Commands outside the vocabulary\<close>

text \<open>
  Claim C9. The claim: an input whose first token is not in the vocabulary, the empty
  input included, gets a fixed "not understood" message and leaves the state unchanged.
  The message is not fixed: it quotes the input, so two such inputs get two different
  messages; and once the game is over such an input gets the game-over message instead.
\<close>

theorem unknown_command_message_varies:
  "fst (parse_command ''xyzzy'') \<notin> set vocabulary
   \<and> fst (parse_command ''plugh'') \<notin> set vocabulary
   \<and> fst (processCommand 0 0 ''xyzzy'' initializeGame)
       \<noteq> fst (processCommand 0 0 ''plugh'' initializeGame)
   \<and> isGameOver rescued
   \<and> fst (processCommand 0 0 ''xyzzy'' rescued)
       = ''The game is over. Refresh the page to play again.''"
  by code_simp

text \<open>
  Claim C9, amended. In a reachable state of a running game, an input whose first token
  is not one of the case labels gets the message "I don't understand '<input>'. Type
  'help' for available commands.", with the input as it was typed, and the state is left
  as it is. The token is \<open>parts[0]\<close>: the trimmed, lower-cased input up to its first
  space; the empty input has the empty token. A case label holds no white space, so an
  input whose first white-space-delimited token is no case label is among these inputs.
\<close>

theorem unknown_command:
  assumes "reachable g" and "\<not> isGameOver g" and "fst (parse_command command) \<notin> set vocabulary"
  shows "processCommand r1 r2 command g = (not_understood command, g)"
proof -
  have alive: "p_isAlive (player g)" using assms(1,2) by (rule reachable_alive)
  have "parse_command command = (fst (parse_command command), snd (parse_command command))"
    by simp
  from processCommand_running [OF assms(2) this] show ?thesis
    using dispatch_unknown [OF assms(3)] checkGameConditions_alive [OF alive] by simp
qed

lemma parse_empty: "parse_command [] = ([], []) \<and> [] \<notin> set vocabulary"
  by code_simp

theorem unknown_command_witness:
  "reachable initializeGame \<and> \<not> isGameOver initializeGame
   \<and> fst (parse_command []) \<notin> set vocabulary
   \<and> processCommand 0 0 [] initializeGame = (not_understood [], initializeGame)"
  using unknown_command [OF reachable_init, of "[]" 0 0] reachable_init start_facts parse_empty
  by simp

section \<open>No dead creature can be attacked\<close>

lemma game_over_not_dead_reply:
  "''The game is over. Refresh the page to play again.'' \<noteq> ''The '' @ t @ '' is already dead.''"
proof
  assume "''The game is over. Refresh the page to play again.'' = ''The '' @ t @ '' is already dead.''"
  then have "rev ''The game is over. Refresh the page to play again.''
               = rev (''The '' @ t @ '' is already dead.'')"
    by (rule arg_cong)
  then show False by simp
qed

lemma Player_attack_not_dead_reply:
  assumes "list_all room_inv (rooms g)"
  shows "fst (Player_attack r1 r2 name g) \<noteq> ''The '' @ name @ '' is already dead.''"
proof (cases "getRoom g (p_currentLocation (player g))")
  case None
  then show ?thesis by (simp add: Player_attack_def apos_def)
next
  case (Some rm)
  note room = this
  obtain rid where rid: "room_inv (rid, rm)"
    using getRoom_inv assms room by blast
  show ?thesis
  proof (cases "Room_getCreatureByName name rm")
    case None
    then show ?thesis using room by (simp add: Player_attack_def)
  next
    case (Some c)
    then have "c \<in> set (r_creatures rm)"
      using find_SomeD by (fastforce simp: Room_getCreatureByName_def)
    then have "c_isAlive c" using rid by (auto simp: room_inv_def list_all_iff creature_inv_def)
    then show ?thesis using room Some
      by (simp add: Player_attack_def case_prod_beta Let_def)
  qed
qed

text \<open>
  Claim C10. In every reachable state every creature in every room is alive, so the
  creature an attack resolves is alive and \<open>Player.attack\<close> never answers that it is
  already dead; neither does an attack command. After an attack command has killed a
  creature, the same command again answers that no such creature is here.
\<close>

theorem no_dead_creature_in_room:
  "reachable g \<Longrightarrow>
     (\<forall>rid rm c. (rid, rm) \<in> set (rooms g) \<and> c \<in> set (r_creatures rm) \<longrightarrow> c_isAlive c)
     \<and> (\<forall>rm c. getRoom g (p_currentLocation (player g)) = Some rm
                 \<and> Room_getCreatureByName name rm = Some c \<longrightarrow> c_isAlive c)
     \<and> fst (Player_attack r1 r2 name g) \<noteq> ''The '' @ name @ '' is already dead.''
     \<and> (parse_command command = (action, target) \<and> action \<in> set [''attack'', ''fight'', ''hit'']
         \<longrightarrow> fst (processCommand r1 r2 command g) \<noteq> ''The '' @ target @ '' is already dead.'')
     \<and> (\<not> isGameOver g \<and> parse_command command = (action, target)
          \<and> action \<in> set [''attack'', ''fight'', ''hit''] \<and> target \<noteq> []
          \<and> getRoom g (p_currentLocation (player g)) = Some currentRoom
          \<and> Room_getCreatureByName target currentRoom = Some creature
          \<and> c_isHostile creature \<and> c_health creature \<le> playerDamage r1
         \<longrightarrow> fst (processCommand r3 r4 command (snd (processCommand r1 r2 command g)))
               = ''There is no '' @ target @ '' here.'')"
proof -
  assume r: "reachable g"
  have rinv: "list_all room_inv (rooms g)" using r by (rule reachable_rooms_inv)
  have a: "c_isAlive c" if "(rid, rm) \<in> set (rooms g)" "c \<in> set (r_creatures rm)" for rid rm c
  proof -
    have "room_inv (rid, rm)" using rinv that(1) by (auto simp: list_all_iff)
    then show ?thesis using that(2) by (auto simp: room_inv_def list_all_iff creature_inv_def)
  qed
  have b: "c_isAlive c"
    if here: "getRoom g (p_currentLocation (player g)) = Some rm"
      and found: "Room_getCreatureByName name rm = Some c"
    for rm c
  proof -
    obtain rid where "room_inv (rid, rm)" using getRoom_inv rinv here by blast
    moreover have "c \<in> set (r_creatures rm)"
      using find_SomeD found by (fastforce simp: Room_getCreatureByName_def)
    ultimately show ?thesis by (auto simp: room_inv_def list_all_iff creature_inv_def)
  qed
  have c: "fst (Player_attack r1 r2 name g) \<noteq> ''The '' @ name @ '' is already dead.''"
    using rinv by (rule Player_attack_not_dead_reply)
  have d: "fst (processCommand r1 r2 command g) \<noteq> ''The '' @ target @ '' is already dead.''"
    if h: "parse_command command = (action, target)" "action \<in> set [''attack'', ''fight'', ''hit'']"
  proof (cases "isGameOver g")
    case True
    then show ?thesis using game_over_not_dead_reply by (simp add: processCommand_def)
  next
    case False
    show ?thesis
    proof (cases "target = []")
      case True
      then show ?thesis using h False
        by (auto simp: processCommand_running dispatch_def)
    next
      case nonempty: False
      show ?thesis using h False nonempty Player_attack_not_dead_reply [OF rinv, of r1 r2 target]
        by (simp add: processCommand_running dispatch_attack)
    qed
  qed
  have e: "fst (processCommand r3 r4 command (snd (processCommand r1 r2 command g)))
             = ''There is no '' @ target @ '' here.''"
    if h: "\<not> isGameOver g" "parse_command command = (action, target)"
      "action \<in> set [''attack'', ''fight'', ''hit'']" "target \<noteq> []"
      "getRoom g (p_currentLocation (player g)) = Some currentRoom"
      "Room_getCreatureByName target currentRoom = Some creature"
      "c_isHostile creature" "c_health creature \<le> playerDamage r1"
  proof -
    obtain rid where rid: "p_currentLocation (player g) = RoomId rid"
      using getRoom_inv rinv h(5) by blast
    let ?g1 = "setRoom (RoomId rid) (currentRoom\<lparr>r_creatures := []\<rparr>) g"
    have alive: "p_isAlive (player g)" using r h(1) by (rule reachable_alive)
    have k: "snd (Player_attack r1 r2 target g) = ?g1"
      using Player_attack_kill(2) [OF rinv h(5,6,7,8)] rid by simp
    have alive1: "p_isAlive (player ?g1)" using alive by simp
    have step: "snd (processCommand r1 r2 command g) = ?g1"
      using h(1-4) k checkGameConditions_alive [OF alive1]
      by (simp add: processCommand_running dispatch_attack)
    have over1: "\<not> isGameOver ?g1" using h(1) by simp
    have "fst (Player_attack r3 r4 target ?g1) = ''There is no '' @ target @ '' here.''"
      using rid by (simp add: Player_attack_def Room_getCreatureByName_def)
    then show ?thesis using step over1 h(2-4)
      by (simp add: processCommand_running dispatch_attack)
  qed
  from a b c d e show ?thesis by blast
qed

theorem no_dead_creature_in_room_witness:
  "reachable forest_fight \<and> \<not> isGameOver forest_fight
   \<and> parse_command ''attack xenomorph'' = (''attack'', ''xenomorph'')
   \<and> r_creatures (the (getRoom forest_fight (RoomId ''alien_forest''))) = [xenomorph\<lparr>c_health := 12\<rparr>]
   \<and> playerDamage (14 / 15) = 19
   \<and> fst (processCommand (14 / 15) 0 ''attack xenomorph'' forest_fight)
        \<noteq> ''The '' @ ''xenomorph'' @ '' is already dead.''
   \<and> fst (processCommand 0 0 ''attack xenomorph''
            (snd (processCommand (14 / 15) 0 ''attack xenomorph'' forest_fight)))
        = ''There is no '' @ ''xenomorph'' @ '' here.''"
  using no_dead_creature_in_room [OF reachable_forest_fight, of "''xenomorph''" "14 / 15" 0
      "''attack xenomorph''" "''attack''" "''xenomorph''"
      "the (getRoom forest_fight (RoomId ''alien_forest''))" "xenomorph\<lparr>c_health := 12\<rparr>" 0 0]
    reachable_forest_fight forest_fight_facts parse_attack_xenomorph
  by simp

end
